theory Spec2Isabelle
  imports Main "HOL-Library.AList"
begin

section \<open>Deferred, grouped imports: a model of \<^verbatim>\<open>lazy.py\<close>\<close>

text \<open>
  The module \<^verbatim>\<open>lazy.py\<close> works on three pieces of process-wide state of the
  Python interpreter (\<^verbatim>\<open>sys.modules\<close>, \<^verbatim>\<open>sys.meta_path\<close>, the module
  objects themselves) and on the outside world (the \<^verbatim>\<open>pip\<close> subprocess, the report
  file, the importable packages). The state is threaded explicitly; the outside world is
  a record of functions (\<open>env\<close>) that every operation takes as a parameter. Every
  \<^verbatim>\<open>raise\<close> is a left injection of the result.
\<close>

subsection \<open>Values, objects, errors\<close>

datatype error =
    KeyError string
  | ValueError string
  | AttributeError string
  | ModuleNotFoundError string
  | ModuleNotFoundError_halted string
  | OSError string
  | JSONDecodeError
  | Raised string

text \<open>
  \<open>ModuleNotFoundError_halted n\<close> is the \<^verbatim>\<open>ModuleNotFoundError\<close> with the message
  \<^verbatim>\<open>import of n halted; None in sys.modules\<close> of the docstring; \<open>Raised\<close> is any
  other exception of the outside world.
\<close>

datatype cls = VeryLazyModule | ModuleType

datatype pyval =
    PyNone
  | Str string
  | Int int
  | Path "string list"
  | Loader
  | Module nat
  | ModuleSpec string "nat option"
  | PyClass cls
  | PyDict nat
  | TypeAttr string
  | Opaque string

text \<open>
  \<open>Module r\<close> is a reference to the module object at address \<open>r\<close>;
  \<open>ModuleSpec n st\<close> is an \<^verbatim>\<open>importlib.machinery.ModuleSpec\<close> with \<^verbatim>\<open>name\<close> \<open>n\<close> and
  \<^verbatim>\<open>loader_state\<close> \<open>st\<close> (a group, by address, or \<^verbatim>\<open>None\<close>); \<open>PyClass c\<close> is a
  class, \<open>PyDict r\<close> the \<^verbatim>\<open>__dict__\<close> of the module object at \<open>r\<close>, \<open>TypeAttr a\<close>
  the attribute \<open>a\<close> as the type of a module object provides it (a method bound to the
  object, or a value of the class); \<open>Opaque\<close> stands for functions and every other
  value, by a label.
\<close>

record modobj =
  cls :: cls
  dict :: "string \<rightharpoonup> pyval"

datatype entry = Halted | Loaded nat

text \<open>
  An entry of \<^verbatim>\<open>sys.modules\<close>: \<open>Halted\<close> is the value \<^verbatim>\<open>None\<close>, which makes the
  import machinery refuse the name; \<open>Loaded r\<close> is the module object at \<open>r\<close>.
\<close>

record LazyImportGroup =
  requires :: string
  name :: "string option"
  modules :: "(string \<times> nat) list"
  need_install :: bool

text \<open>
  \<^verbatim>\<open>self.modules\<close> is an association list in insertion order, since \<^verbatim>\<open>lock\<close>
  iterates over it and may stop in the middle. \<^verbatim>\<open>self.finder\<close> is created once in
  \<^verbatim>\<open>__init__\<close> and holds only a reference back to the group: a finder is identified
  with the address of its group.
\<close>

type_synonym call = "string list \<times> (error + int)"

record state =
  heap :: "nat \<Rightarrow> modobj"
  next_ref :: nat
  sys_modules :: "string \<rightharpoonup> entry"
  meta_path :: "nat list"
  groups :: "nat \<Rightarrow> LazyImportGroup"
  pip_calls :: "call list"
  stdout :: "string list"

text \<open>
  \<open>heap\<close> and \<open>groups\<close> are the stores of module and group objects, by address;
  addresses from \<open>next_ref\<close> on are not yet allocated. \<open>meta_path\<close> lists the
  \<^verbatim>\<open>VeryLazyFinder\<close>s at the front of \<^verbatim>\<open>sys.meta_path\<close> (the interpreter's own
  finders stand behind them and are part of the environment). \<open>pip_calls\<close> logs every
  \<^verbatim>\<open>subprocess.run\<close> with its outcome, \<open>stdout\<close> every printed line.
\<close>

type_synonym metadata = "string \<rightharpoonup> string"
type_synonym report_entry = "metadata option"
type_synonym report = "report_entry list option"

text \<open>
  The dry-run report as \<^verbatim>\<open>resolve\<close> reads it: \<^verbatim>\<open>report["install"]\<close> (absent:
  \<open>None\<close>) is a list of entries, and \<^verbatim>\<open>entry["metadata"]\<close> (absent: \<open>None\<close>) maps
  keys to their printed form.
\<close>

record env =
  locate :: "state \<Rightarrow> string \<Rightarrow> string \<Rightarrow> error + string"
  NamedTemporaryFile :: "call list \<Rightarrow> error + string"
  subprocess_run :: "call list \<Rightarrow> string list \<Rightarrow> error + int"
  json_load :: "call list \<Rightarrow> string \<Rightarrow> error + report"
  find_real :: "call list \<Rightarrow> string \<Rightarrow> error + (string \<rightharpoonup> pyval)"

text \<open>
  The outside world. \<open>locate s pak req\<close> is the chain \<^verbatim>\<open>find_spec\<close>,
  \<^verbatim>\<open>module_from_spec\<close>, \<^verbatim>\<open>files(...).joinpath\<close>, \<^verbatim>\<open>as_file\<close>: the path of the
  requirements file, or what one of them raises. It takes the state, because
  \<^verbatim>\<open>importlib.util.find_spec\<close> answers from \<^verbatim>\<open>sys.modules\<close> when the package is
  there (with the \<^verbatim>\<open>__spec__\<close> of what it finds, or \<^verbatim>\<open>None\<close> for a halted name) and
  asks the finders of \<^verbatim>\<open>sys.meta_path\<close> otherwise. For a dotted package name it
  imports the parent package first; that import is not modelled. \<open>subprocess_run\<close>
  gives the exit status of a command, or what \<^verbatim>\<open>subprocess.run\<close> raises when it
  cannot run it; like
  \<open>json_load\<close> (the content of the report file) and \<open>find_real\<close> (the interpreter's own
  finders and loaders: the namespace of the executed module, or the exception) it may
  depend on the commands run so far. Leaving a \<^verbatim>\<open>with\<close> block does not raise.
\<close>

subsection \<open>The package manager\<close>

definition pip :: "env \<Rightarrow> string list \<Rightarrow> state \<Rightarrow> (error + unit) \<times> state" where
  "pip E args s =
     (let out = subprocess_run E (pip_calls s) (''pip'' # args);
          s' = s\<lparr>pip_calls := pip_calls s @ [(''pip'' # args, out)]\<rparr>
      in case out of Inl e \<Rightarrow> (Inl e, s') | Inr code \<Rightarrow> (Inr (), s'))"

definition EXTRA_PIP_ARGS :: "string list" where
  "EXTRA_PIP_ARGS = [''--quiet'']"

definition dry_run_args :: "string \<Rightarrow> string \<Rightarrow> string list" where
  "dry_run_args freport req =
     [''install''] @ EXTRA_PIP_ARGS @ [''--dry-run'', ''--no-deps'', ''--report'', freport, ''-r'', req]"

definition install_args :: "string \<Rightarrow> string list" where
  "install_args req = [''install''] @ EXTRA_PIP_ARGS @ [''-r'', req]"

subsection \<open>The group\<close>

definition rpartition :: "char \<Rightarrow> string \<Rightarrow> string \<times> string" where
  "rpartition c xs =
     (if c \<in> set xs
      then (rev (tl (dropWhile (\<lambda>x. x \<noteq> c) (rev xs))), rev (takeWhile (\<lambda>x. x \<noteq> c) (rev xs)))
      else ([], xs))"

definition enter :: "nat \<Rightarrow> state \<Rightarrow> state" where
  "enter g s = s\<lparr>meta_path := g # meta_path s\<rparr>"

definition register :: "nat \<Rightarrow> nat \<Rightarrow> state \<Rightarrow> (error + unit) \<times> state" where
  "register g m s =
     (case dict (heap s m) ''__spec__'' of
        Some (ModuleSpec n st) \<Rightarrow>
          (Inr (), s\<lparr>groups := (groups s)(g := (groups s g)\<lparr>modules := AList.update n m (modules (groups s g))\<rparr>)\<rparr>)
      | _ \<Rightarrow> (Inl (AttributeError ''__spec__''), s))"

fun lock_items :: "(string \<times> nat) list \<Rightarrow> (string \<rightharpoonup> entry) \<Rightarrow> (error + unit) \<times> (string \<rightharpoonup> entry)" where
  "lock_items [] sm = (Inr (), sm)"
| "lock_items ((n, m) # rest) sm =
     (case sm n of
        None \<Rightarrow> (Inl (KeyError n), sm)
      | Some e \<Rightarrow> lock_items rest (if e = Loaded m then sm(n \<mapsto> Halted) else sm))"

definition lock :: "nat \<Rightarrow> state \<Rightarrow> (error + unit) \<times> state" where
  "lock g s =
     (case lock_items (modules (groups s g)) (sys_modules s) of
        (r, sm) \<Rightarrow> (r, s\<lparr>sys_modules := sm\<rparr>))"

fun unlock_names :: "string list \<Rightarrow> (string \<rightharpoonup> entry) \<Rightarrow> (string \<rightharpoonup> entry)" where
  "unlock_names [] sm = sm"
| "unlock_names (n # ns) sm =
     unlock_names ns (if sm n = Some Halted then sm(n := None) else sm)"

definition unlock :: "nat \<Rightarrow> state \<Rightarrow> state" where
  "unlock g s = s\<lparr>sys_modules := unlock_names (map fst (modules (groups s g))) (sys_modules s)\<rparr>"

definition exit :: "nat \<Rightarrow> state \<Rightarrow> (error + unit) \<times> state" where
  "exit g s =
     (if g \<in> set (meta_path s)
      then lock g (s\<lparr>meta_path := remove1 g (meta_path s)\<rparr>)
      else (Inl (ValueError ''list.remove(x): x not in list''), s))"

text \<open>
  \<open>enter\<close> and \<open>exit\<close> are \<^verbatim>\<open>__enter__\<close> and \<^verbatim>\<open>__exit__\<close>: the finder is put in
  front of \<^verbatim>\<open>sys.meta_path\<close>; \<^verbatim>\<open>list.remove\<close> takes its first occurrence away, or
  raises \<^verbatim>\<open>ValueError\<close>, and \<^verbatim>\<open>lock\<close> follows. \<open>lock_items\<close> and \<open>unlock_names\<close>
  are the loops of \<^verbatim>\<open>lock\<close> and \<^verbatim>\<open>unlock\<close>: \<^verbatim>\<open>sys.modules[name]\<close> raises
  \<^verbatim>\<open>KeyError\<close> for a name that is not there, a module is compared by identity, and
  only \<^verbatim>\<open>unlock\<close> asks first whether the name is there. \<open>register\<close> is called by
  \<open>exec_module\<close> only, which has read the spec before.
\<close>

definition format_entry :: "metadata \<Rightarrow> error + string" where
  "format_entry md =
     (case md ''name'' of
        None \<Rightarrow> Inl (KeyError ''name'')
      | Some n \<Rightarrow>
          (case md ''version'' of
             None \<Rightarrow> Inl (KeyError ''version'')
           | Some v \<Rightarrow>
               (case md ''summary'' of
                  None \<Rightarrow> Inl (KeyError ''summary'')
                | Some d \<Rightarrow> Inr (''installing '' @ n @ ''=='' @ v @ '' ('' @ d @ '')''))))"

fun print_entries :: "report_entry list \<Rightarrow> state \<Rightarrow> (error + unit) \<times> state" where
  "print_entries [] s = (Inr (), s)"
| "print_entries (e # es) s =
     (case e of
        None \<Rightarrow> (Inl (KeyError ''metadata''), s)
      | Some md \<Rightarrow>
          (case format_entry md of
             Inl err \<Rightarrow> (Inl err, s)
           | Inr line \<Rightarrow> print_entries es (s\<lparr>stdout := stdout s @ [line]\<rparr>)))"

definition install_pending :: "env \<Rightarrow> string \<Rightarrow> report_entry list \<Rightarrow> state \<Rightarrow> (error + unit) \<times> state" where
  "install_pending E path entries s =
     (case print_entries entries s of
        (Inl e, s2) \<Rightarrow> (Inl e, s2)
      | (Inr u, s2) \<Rightarrow> (if entries \<noteq> [] then pip E (install_args path) s2 else (Inr (), s2)))"

definition dry_run :: "env \<Rightarrow> string \<Rightarrow> string \<Rightarrow> state \<Rightarrow> (error + report_entry list) \<times> state" where
  "dry_run E path freport s =
     (case pip E (dry_run_args freport path) s of
        (Inl e, s1) \<Rightarrow> (Inl e, s1)
      | (Inr u, s1) \<Rightarrow>
          (case json_load E (pip_calls s1) freport of
             Inl e \<Rightarrow> (Inl e, s1)
           | Inr None \<Rightarrow> (Inl (KeyError ''install''), s1)
           | Inr (Some entries) \<Rightarrow> (Inr entries, s1)))"

text \<open>
  \<^verbatim>\<open>resolve\<close>, in the order of the source: the flag; the requirement file
  (\<^verbatim>\<open>rpartition(":")\<close> splits at the last colon); the report file; the dry run and
  \<^verbatim>\<open>json.load\<close> of its report (\<open>dry_run\<close>); one printed line for each entry of
  \<^verbatim>\<open>report["install"]\<close>, then the installation if that list is not empty
  (\<open>install_pending\<close>); and last of all \<^verbatim>\<open>self.need_install = False\<close>.
\<close>

definition resolve :: "env \<Rightarrow> nat \<Rightarrow> state \<Rightarrow> (error + unit) \<times> state" where
  "resolve E g s =
     (if \<not> need_install (groups s g) then (Inr (), s)
      else
        (case locate E s (fst (rpartition CHR '':'' (requires (groups s g))))
                        (snd (rpartition CHR '':'' (requires (groups s g)))) of
           Inl e \<Rightarrow> (Inl e, s)
         | Inr path \<Rightarrow>
             (case NamedTemporaryFile E (pip_calls s) of
                Inl e \<Rightarrow> (Inl e, s)
              | Inr freport \<Rightarrow>
                  (case dry_run E path freport s of
                     (Inl e, s1) \<Rightarrow> (Inl e, s1)
                   | (Inr entries, s1) \<Rightarrow>
                       (case install_pending E path entries s1 of
                          (Inl e, s3) \<Rightarrow> (Inl e, s3)
                        | (Inr u, s3) \<Rightarrow>
                            (Inr (), s3\<lparr>groups := (groups s3)(g := (groups s3 g)\<lparr>need_install := False\<rparr>)\<rparr>))))))"

subsection \<open>The import machinery\<close>

text \<open>
  The part of \<^verbatim>\<open>importlib\<close> that \<^verbatim>\<open>lazy.py\<close> drives. \<open>import_module\<close> is
  \<^verbatim>\<open>importlib.import_module\<close> and the \<^verbatim>\<open>import\<close> statement: a name that
  \<^verbatim>\<open>sys.modules\<close> holds is answered from there (\<^verbatim>\<open>None\<close> halts the import);
  otherwise the parent package is imported first, the first finder of
  \<^verbatim>\<open>sys.meta_path\<close> that knows the name gives the spec, the module is created,
  entered into \<^verbatim>\<open>sys.modules\<close>, executed, and bound as an attribute of its parent.
  A \<^verbatim>\<open>VeryLazyFinder\<close> never declines; with none on the path the interpreter's
  own finders decide (\<open>find_real\<close>). Executing a genuine module is not modelled beyond
  the namespace it leaves; \<^verbatim>\<open>parent.__path__\<close> is read from the parent's namespace.
\<close>

definition find_spec :: "nat \<Rightarrow> string \<Rightarrow> pyval" where
  "find_spec g fullname = ModuleSpec fullname (Some g)"

definition spec_name :: "pyval \<Rightarrow> string" where
  "spec_name sp = (case sp of ModuleSpec n st \<Rightarrow> n | _ \<Rightarrow> [])"

definition module_from_spec :: "pyval \<Rightarrow> state \<Rightarrow> nat \<times> state" where
  "module_from_spec sp s =
     (next_ref s,
      s\<lparr>heap := (heap s)(next_ref s :=
            \<lparr>cls = ModuleType,
             dict = [''__name__'' \<mapsto> Str (spec_name sp), ''__doc__'' \<mapsto> PyNone,
                     ''__package__'' \<mapsto> Str (spec_name sp), ''__loader__'' \<mapsto> Loader,
                     ''__spec__'' \<mapsto> sp, ''__path__'' \<mapsto> Path []]\<rparr>),
        next_ref := Suc (next_ref s)\<rparr>)"

definition set_cls :: "nat \<Rightarrow> cls \<Rightarrow> state \<Rightarrow> state" where
  "set_cls m c s = s\<lparr>heap := (heap s)(m := (heap s m)\<lparr>cls := c\<rparr>)\<rparr>"

definition set_dict :: "nat \<Rightarrow> (string \<rightharpoonup> pyval) \<Rightarrow> state \<Rightarrow> state" where
  "set_dict m d s = s\<lparr>heap := (heap s)(m := (heap s m)\<lparr>dict := d\<rparr>)\<rparr>"

definition exec_module :: "nat \<Rightarrow> state \<Rightarrow> (error + unit) \<times> state" where
  "exec_module m s =
     (case dict (heap s m) ''__spec__'' of
        None \<Rightarrow> (Inl (AttributeError ''__spec__''), set_cls m ModuleType s)
      | Some (ModuleSpec n (Some g)) \<Rightarrow> register g m (set_cls m VeryLazyModule s)
      | Some (ModuleSpec n None) \<Rightarrow> (Inl (AttributeError ''register''), set_cls m VeryLazyModule s)
      | Some v \<Rightarrow> (Inl (AttributeError ''loader_state''), set_cls m VeryLazyModule s))"

text \<open>
  \<^verbatim>\<open>module.__class__ = VeryLazyModule\<close>, then \<^verbatim>\<open>module.__spec__.loader_state.register(module)\<close>.
  A module without \<^verbatim>\<open>__spec__\<close> would send that lookup to \<^verbatim>\<open>__getattr__\<close>, which
  resets the class and fails on its own lookup of \<^verbatim>\<open>__spec__\<close>.
\<close>

definition load_unlocked :: "env \<Rightarrow> string \<Rightarrow> state \<Rightarrow> (error + nat) \<times> state" where
  "load_unlocked E n s =
     (case meta_path s of
        g # fs \<Rightarrow>
          (case module_from_spec (find_spec g n) s of
             (m, s1) \<Rightarrow>
               (case exec_module m (s1\<lparr>sys_modules := (sys_modules s1)(n \<mapsto> Loaded m)\<rparr>) of
                  (Inl e, s2) \<Rightarrow> (Inl e, s2\<lparr>sys_modules := (sys_modules s2)(n := None)\<rparr>)
                | (Inr u, s2) \<Rightarrow> (Inr m, s2)))
      | [] \<Rightarrow>
          (case find_real E (pip_calls s) n of
             Inl e \<Rightarrow> (Inl e, s)
           | Inr d \<Rightarrow>
               (Inr (next_ref s),
                s\<lparr>heap := (heap s)(next_ref s := \<lparr>cls = ModuleType, dict = d\<rparr>),
                  next_ref := Suc (next_ref s),
                  sys_modules := (sys_modules s)(n \<mapsto> Loaded (next_ref s))\<rparr>)))"

definition bind_child :: "string \<Rightarrow> string \<Rightarrow> nat \<Rightarrow> state \<Rightarrow> (error + nat) \<times> state" where
  "bind_child parent child m s =
     (case sys_modules s parent of
        None \<Rightarrow> (Inl (KeyError parent), s)
      | Some Halted \<Rightarrow> (Inr m, s)
      | Some (Loaded pm) \<Rightarrow> (Inr m, set_dict pm ((dict (heap s pm))(child \<mapsto> Module m)) s))"

definition load_child :: "env \<Rightarrow> string \<Rightarrow> string \<Rightarrow> state \<Rightarrow> (error + nat) \<times> state" where
  "load_child E parent n s =
     (case sys_modules s parent of
        None \<Rightarrow> (Inl (KeyError parent), s)
      | Some Halted \<Rightarrow> (Inl (ModuleNotFoundError n), s)
      | Some (Loaded pm) \<Rightarrow>
          (if dict (heap s pm) ''__path__'' = None then (Inl (ModuleNotFoundError n), s)
           else
             (case load_unlocked E n s of
                (Inl e, s2) \<Rightarrow> (Inl e, s2)
              | (Inr m, s2) \<Rightarrow> bind_child parent (snd (rpartition CHR ''.'' n)) m s2)))"

function import_module :: "env \<Rightarrow> string \<Rightarrow> state \<Rightarrow> (error + nat) \<times> state" where
  "import_module E n s =
     (case sys_modules s n of
        Some Halted \<Rightarrow> (Inl (ModuleNotFoundError_halted n), s)
      | Some (Loaded r) \<Rightarrow> (Inr r, s)
      | None \<Rightarrow>
          (if fst (rpartition CHR ''.'' n) = [] then load_unlocked E n s
           else if sys_modules s (fst (rpartition CHR ''.'' n)) = None
           then
             (case import_module E (fst (rpartition CHR ''.'' n)) s of
                (Inl e, s1) \<Rightarrow> (Inl e, s1)
              | (Inr u, s1) \<Rightarrow> load_child E (fst (rpartition CHR ''.'' n)) n s1)
           else load_child E (fst (rpartition CHR ''.'' n)) n s))"
  by pat_completeness auto
termination
proof (relation "measure (\<lambda>(E, n, s). length n)")
  show "wf (measure (\<lambda>(E, n, s). length n))" by simp
next
  fix E :: env and n :: string and s :: state
  assume "fst (rpartition CHR ''.'' n) \<noteq> []"
  then have "CHR ''.'' \<in> set n"
    by (auto simp: rpartition_def split: if_splits)
  define ys where "ys = dropWhile (\<lambda>x. x \<noteq> CHR ''.'') (rev n)"
  have "ys \<noteq> []"
    using \<open>CHR ''.'' \<in> set n\<close> by (simp add: ys_def)
  then have "length (tl ys) < length ys"
    by (cases ys) simp_all
  moreover have "length ys \<le> length n"
    using length_dropWhile_le [of "\<lambda>x. x \<noteq> CHR ''.''" "rev n"] by (simp add: ys_def)
  moreover have "fst (rpartition CHR ''.'' n) = rev (tl ys)"
    using \<open>CHR ''.'' \<in> set n\<close> by (simp add: rpartition_def ys_def)
  ultimately have "length (fst (rpartition CHR ''.'' n)) < length n"
    by simp
  then show "((E, fst (rpartition CHR ''.'' n), s), (E, n, s)) \<in> measure (\<lambda>(E, n, s). length n)"
    by simp
qed

subsection \<open>The proxy module\<close>

definition data_descriptors :: "string list" where
  "data_descriptors = [''__annotations__'', ''__class__'', ''__dict__'']"

definition type_attributes :: "cls \<Rightarrow> string list" where
  "type_attributes c =
     [''__delattr__'', ''__dir__'', ''__doc__'', ''__eq__'', ''__format__'', ''__ge__'',
      ''__getattribute__'', ''__getstate__'', ''__gt__'', ''__hash__'', ''__init__'',
      ''__init_subclass__'', ''__le__'', ''__lt__'', ''__ne__'', ''__new__'', ''__reduce__'',
      ''__reduce_ex__'', ''__repr__'', ''__setattr__'', ''__sizeof__'', ''__str__'',
      ''__subclasshook__''] @
     (case c of VeryLazyModule \<Rightarrow> [''__getattr__'', ''__module__''] | ModuleType \<Rightarrow> [])"

definition held :: "state \<Rightarrow> nat \<Rightarrow> string \<Rightarrow> bool" where
  "held s m attr \<longleftrightarrow>
     attr \<in> set data_descriptors \<or> dict (heap s m) attr \<noteq> None \<or>
     attr \<in> set (type_attributes (cls (heap s m)))"

definition object_getattribute :: "nat \<Rightarrow> string \<Rightarrow> state \<Rightarrow> pyval option \<times> state" where
  "object_getattribute m attr s =
     (if attr = ''__class__'' then (Some (PyClass (cls (heap s m))), s)
      else if attr = ''__dict__'' then (Some (PyDict m), s)
      else
        (case dict (heap s m) attr of
           Some v \<Rightarrow> (Some v, s)
         | None \<Rightarrow>
             (if attr = ''__annotations__''
              then (Some (Opaque ''{}''), set_dict m ((dict (heap s m))(attr \<mapsto> Opaque ''{}'')) s)
              else if attr \<in> set (type_attributes (cls (heap s m))) then (Some (TypeAttr attr), s)
              else (None, s))))"

text \<open>
  The ordinary attribute lookup of a module object, which comes before any
  \<^verbatim>\<open>__getattr__\<close>; \<open>None\<close> is its \<^verbatim>\<open>AttributeError\<close>. The data descriptors of the
  type are asked first, then the namespace of the object, then the other attributes of
  the type. The names are those that \<^verbatim>\<open>object\<close>, \<^verbatim>\<open>types.ModuleType\<close> and the class
  statement of \<^verbatim>\<open>VeryLazyModule\<close> define in CPython 3.11: \<^verbatim>\<open>__class__\<close> and
  \<^verbatim>\<open>__dict__\<close> are always answered by the type; \<^verbatim>\<open>__annotations__\<close> is answered
  from the namespace, in which the type first stores an empty dictionary when the name
  is missing; the names of \<open>type_attributes\<close> are answered by the type when the
  namespace does not hold them. \<open>held s m attr\<close> says that this lookup finds \<open>attr\<close>. A
  function \<^verbatim>\<open>__getattr__\<close> in the namespace of a module (PEP 562) is not modelled.
\<close>

definition module_getattr :: "nat \<Rightarrow> string \<Rightarrow> state \<Rightarrow> (error + pyval) \<times> state" where
  "module_getattr m attr s =
     (case object_getattribute m attr s of
        (Some v, s') \<Rightarrow> (Inr v, s')
      | (None, s') \<Rightarrow> (Inl (AttributeError attr), s'))"

text \<open>
  \<^verbatim>\<open>getattr(m, attr)\<close> on a module whose class has no \<^verbatim>\<open>__getattr__\<close>: the
  ordinary lookup, or \<^verbatim>\<open>AttributeError\<close>.
\<close>

definition VeryLazyModule_getattr :: "env \<Rightarrow> nat \<Rightarrow> string \<Rightarrow> state \<Rightarrow> (error + pyval) \<times> state" where
  "VeryLazyModule_getattr E self attr s =
     (case dict (heap s self) ''__spec__'' of
        None \<Rightarrow> (Inl (AttributeError ''__spec__''), set_cls self ModuleType s)
      | Some (ModuleSpec n (Some g)) \<Rightarrow>
          (case resolve E g (unlock g (set_cls self ModuleType s)) of
             (Inl e, s1) \<Rightarrow> (Inl e, s1)
           | (Inr u, s1) \<Rightarrow>
               (case import_module E n s1 of
                  (Inl e, s2) \<Rightarrow> (Inl e, s2)
                | (Inr r, s2) \<Rightarrow>
                    (case set_dict self ((dict (heap s2 self))(''__real_module__'' \<mapsto> Module r)) s2 of
                       s3 \<Rightarrow>
                         (case set_dict self (dict (heap s3 self) ++ dict (heap s3 r)) s3 of
                            s4 \<Rightarrow> module_getattr self attr s4))))
      | Some (ModuleSpec n None) \<Rightarrow> (Inl (AttributeError ''unlock''), set_cls self ModuleType s)
      | Some v \<Rightarrow> (Inl (AttributeError ''loader_state''), set_cls self ModuleType s))"

text \<open>
  \<^verbatim>\<open>VeryLazyModule.__getattr__\<close>, line by line: the class is reset first; the group is
  \<^verbatim>\<open>self.__spec__.loader_state\<close>; \<^verbatim>\<open>unlock\<close>, \<^verbatim>\<open>resolve\<close>; the genuine import of
  \<^verbatim>\<open>self.__spec__.name\<close> (the spec read before: \<^verbatim>\<open>unlock\<close> and \<^verbatim>\<open>resolve\<close> leave
  the module objects alone), recorded under \<^verbatim>\<open>__real_module__\<close>; the namespace of
  what was imported is copied over the proxy's own; the attribute is looked up again,
  on what the first line has made a plain module. \<^verbatim>\<open>self.__spec__\<close> is read from the
  namespace: no type of a module defines that name.
\<close>

definition getattr :: "env \<Rightarrow> nat \<Rightarrow> string \<Rightarrow> state \<Rightarrow> (error + pyval) \<times> state" where
  "getattr E m attr s =
     (case object_getattribute m attr s of
        (Some v, s') \<Rightarrow> (Inr v, s')
      | (None, s') \<Rightarrow>
          (if cls (heap s m) = VeryLazyModule then VeryLazyModule_getattr E m attr s'
           else (Inl (AttributeError attr), s')))"

text \<open>
  \<^verbatim>\<open>getattr(m, attr)\<close> on a module object: Python calls \<^verbatim>\<open>__getattr__\<close> only when
  the ordinary lookup fails, and only \<^verbatim>\<open>VeryLazyModule\<close> defines it.
\<close>

definition real_module :: "env \<Rightarrow> nat \<Rightarrow> state \<Rightarrow> (error + pyval) \<times> state" where
  "real_module E m s =
     (case getattr E m ''__real_module__'' s of
        (Inr v, s') \<Rightarrow> (Inr v, s')
      | (Inl (AttributeError a), s') \<Rightarrow> (Inr (Module m), s')
      | (Inl e, s') \<Rightarrow> (Inl e, s'))"

text \<open>
  \<^verbatim>\<open>getattr(module, "__real_module__", module)\<close>: the default replaces an
  \<^verbatim>\<open>AttributeError\<close> and nothing else.
\<close>

subsection \<open>Observations used by the statements\<close>

definition real_install_done :: "call \<Rightarrow> bool" where
  "real_install_done c =
     (case c of
        (args, Inl e) \<Rightarrow> False
      | (args, Inr code) \<Rightarrow> args = ''pip'' # install_args (last args))"

definition installs :: "state \<Rightarrow> nat" where
  "installs s = length (filter real_install_done (pip_calls s))"

text \<open>
  \<open>installs s\<close> counts the real installations performed so far: the logged commands of
  the shape \<^verbatim>\<open>pip install --quiet -r <file>\<close> that ran and returned an exit status.
\<close>

fun resolve_times :: "env \<Rightarrow> nat \<Rightarrow> nat \<Rightarrow> state \<Rightarrow> state" where
  "resolve_times E g 0 s = s"
| "resolve_times E g (Suc k) s = resolve_times E g k (snd (resolve E g s))"

text \<open>
  \<open>k\<close> calls of \<^verbatim>\<open>resolve()\<close> on the same group, one after the other, whatever each
  returns or raises.
\<close>

subsection \<open>A concrete world\<close>

text \<open>
  The first scenario of the docstring, for evaluating the operations: a group for
  \<^verbatim>\<open>pak:requirements.txt\<close>; a dry run that reports one pending package; a package
  \<^verbatim>\<open>pak\<close> with a function \<^verbatim>\<open>dopak\<close> and a submodule \<^verbatim>\<open>pak.bar\<close> with a
  function \<^verbatim>\<open>dobar\<close>, which can be imported once a real installation has run.
  \<open>flaky_env\<close> is the same world with a \<^verbatim>\<open>pip\<close> that cannot be
  started the first time, \<open>stopping_env\<close> one whose \<^verbatim>\<open>pip\<close> can be started only
  the first time, \<open>failing_env\<close> one whose \<^verbatim>\<open>pip\<close> always runs and exits
  with status 1, \<open>satisfied_env\<close> one whose dry run reports nothing to install.
\<close>

definition demo_report :: report where
  "demo_report =
     Some [Some [''name'' \<mapsto> ''fuzzywuzzy'', ''version'' \<mapsto> ''0.18.0'',
                 ''summary'' \<mapsto> ''Fuzzy string matching in python'']]"

definition demo_find :: "call list \<Rightarrow> string \<Rightarrow> error + (string \<rightharpoonup> pyval)" where
  "demo_find cs n =
     (if filter real_install_done cs = [] then Inl (ModuleNotFoundError n)
      else if n = ''pak''
      then Inr [''__name__'' \<mapsto> Str ''pak'', ''__spec__'' \<mapsto> ModuleSpec ''pak'' None,
                ''__path__'' \<mapsto> Path [''/site/pak''], ''dopak'' \<mapsto> Opaque ''function dopak'']
      else if n = ''pak.bar''
      then Inr [''__name__'' \<mapsto> Str ''pak.bar'', ''__spec__'' \<mapsto> ModuleSpec ''pak.bar'' None,
                ''dobar'' \<mapsto> Opaque ''function dobar'']
      else Inl (ModuleNotFoundError n))"

definition demo_locate :: "state \<Rightarrow> string \<Rightarrow> string \<Rightarrow> error + string" where
  "demo_locate s pak req =
     (case sys_modules s pak of
        Some Halted \<Rightarrow> Inl (AttributeError ''loader'')
      | Some (Loaded m) \<Rightarrow>
          (case dict (heap s m) ''__spec__'' of
             Some (ModuleSpec n None) \<Rightarrow> Inr (''/site/'' @ pak @ ''/'' @ req)
           | Some (ModuleSpec n (Some g)) \<Rightarrow> Inl (OSError ''FileNotFoundError'')
           | Some v \<Rightarrow> Inl (ValueError ''__spec__ is None'')
           | None \<Rightarrow> Inl (ValueError ''__spec__ is not set''))
      | None \<Rightarrow>
          (case meta_path s of
             [] \<Rightarrow> Inr (''/site/'' @ pak @ ''/'' @ req)
           | g # fs \<Rightarrow> Inl (OSError ''FileNotFoundError'')))"

text \<open>
  The requirement file of a package of the concrete world, as the chain of
  \<^verbatim>\<open>resolve\<close> finds it. \<^verbatim>\<open>find_spec\<close> returns \<^verbatim>\<open>None\<close> for a halted name, and
  \<^verbatim>\<open>module_from_spec(None)\<close> raises \<^verbatim>\<open>AttributeError\<close>; for a name bound in
  \<^verbatim>\<open>sys.modules\<close> it returns the \<^verbatim>\<open>__spec__\<close> of the module, and for a name that is
  not bound the spec of the first finder. The spec of a \<^verbatim>\<open>VeryLazyFinder\<close> (of a
  proxy, or of the finder of an active \<^verbatim>\<open>with\<close> block) has no location, and
  \<^verbatim>\<open>as_file\<close> raises \<^verbatim>\<open>FileNotFoundError\<close>, an \<^verbatim>\<open>OSError\<close>; a genuine spec
  leads to the file, which every package of this world has.
\<close>

definition demo_env :: env where
  "demo_env =
     \<lparr>locate = demo_locate,
      NamedTemporaryFile = (\<lambda>cs. Inr ''/tmp/report''),
      subprocess_run = (\<lambda>cs args. Inr 0),
      json_load = (\<lambda>cs f. Inr demo_report),
      find_real = demo_find\<rparr>"

definition stopping_env :: env where
  "stopping_env = demo_env\<lparr>subprocess_run := (\<lambda>cs args. if cs = [] then Inr 0 else Inl (OSError ''pip''))\<rparr>"

definition flaky_env :: env where
  "flaky_env = demo_env\<lparr>subprocess_run := (\<lambda>cs args. if cs = [] then Inl (OSError ''pip'') else Inr 0)\<rparr>"

definition failing_env :: env where
  "failing_env = demo_env\<lparr>subprocess_run := (\<lambda>cs args. Inr 1)\<rparr>"

definition satisfied_env :: env where
  "satisfied_env = demo_env\<lparr>json_load := (\<lambda>cs f. Inr (Some []))\<rparr>"

definition demo_group :: LazyImportGroup where
  "demo_group = \<lparr>requires = ''pak:requirements.txt'', name = None, modules = [], need_install = True\<rparr>"

definition demo_state :: state where
  "demo_state =
     \<lparr>heap = (\<lambda>r. \<lparr>cls = ModuleType, dict = Map.empty\<rparr>), next_ref = 0,
      sys_modules = Map.empty, meta_path = [], groups = (\<lambda>g. demo_group),
      pip_calls = [], stdout = []\<rparr>"

subsection \<open>What an import may change\<close>

text \<open>
  \<open>import_step s s'\<close> collects what every run of the import machinery preserves:
  the finders, the log and the output; entries of \<^verbatim>\<open>sys.modules\<close> are only added, never
  changed, and a new entry is a module object allocated by this run; no group changes
  but by registering a module under a name that was absent and is now bound to it; no
  existing object changes its class. \<open>new_keys_below s s' b\<close> bounds the length of the
  names added.
\<close>

definition import_step :: "state \<Rightarrow> state \<Rightarrow> bool" where
  "import_step s s' \<longleftrightarrow>
     meta_path s' = meta_path s \<and> pip_calls s' = pip_calls s \<and> stdout s' = stdout s \<and>
     next_ref s \<le> next_ref s' \<and>
     (\<forall>k e. sys_modules s k = Some e \<longrightarrow> sys_modules s' k = Some e) \<and>
     (\<forall>k. sys_modules s k = None \<longrightarrow> sys_modules s' k = None \<or>
          (\<exists>m. sys_modules s' k = Some (Loaded m) \<and> next_ref s \<le> m \<and> m < next_ref s')) \<and>
     (\<forall>g. need_install (groups s' g) = need_install (groups s g) \<and>
          requires (groups s' g) = requires (groups s g)) \<and>
     (\<forall>g k m. (k, m) \<in> set (modules (groups s' g)) \<longrightarrow>
          (k, m) \<in> set (modules (groups s g)) \<or> sys_modules s k = None \<and> sys_modules s' k = Some (Loaded m)) \<and>
     (\<forall>p. p < next_ref s \<longrightarrow> cls (heap s' p) = cls (heap s p))"

definition new_keys_below :: "state \<Rightarrow> state \<Rightarrow> nat \<Rightarrow> bool" where
  "new_keys_below s s' b \<longleftrightarrow> (\<forall>k. sys_modules s k = None \<longrightarrow> sys_modules s' k \<noteq> None \<longrightarrow> length k \<le> b)"

subsection \<open>The \<^verbatim>\<open>with\<close> statement\<close>

fun import_all :: "env \<Rightarrow> string list \<Rightarrow> state \<Rightarrow> (error + unit) \<times> state" where
  "import_all E [] s = (Inr (), s)"
| "import_all E (n # ns) s =
     (case import_module E n s of
        (Inl e, s1) \<Rightarrow> (Inl e, s1)
      | (Inr r, s1) \<Rightarrow> import_all E ns s1)"

definition scope :: "env \<Rightarrow> nat \<Rightarrow> string list \<Rightarrow> state \<Rightarrow> (error + unit) \<times> state" where
  "scope E g ns s =
     (case import_all E ns (enter g s) of
        (r, s1) \<Rightarrow>
          (case exit g s1 of
             (Inl e, s2) \<Rightarrow> (Inl e, s2)
           | (Inr u, s2) \<Rightarrow> (r, s2)))"

text \<open>
  \<^verbatim>\<open>with group: import n1; import n2; ...\<close>: \<^verbatim>\<open>__enter__\<close>, the imports up to the
  first that raises, then \<^verbatim>\<open>__exit__\<close> in any case; what \<^verbatim>\<open>__exit__\<close> raises
  replaces the outcome of the body.
\<close>

subsection \<open>Scenarios in the concrete world\<close>

definition resolved_inside :: state where
  "resolved_inside =
     snd (import_module demo_env ''pak'' (enter 0 (snd (resolve demo_env 0 demo_state))))"

definition demo_scoped :: state where
  "demo_scoped = snd (scope demo_env 0 [''pak'', ''pak.bar''] demo_state)"

definition demo_used :: state where
  "demo_used = snd (getattr demo_env 0 ''dopak'' demo_scoped)"

definition typo_scoped :: state where
  "typo_scoped = snd (scope demo_env 0 [''pak'', ''pakk''] demo_state)"

definition typo_used :: state where
  "typo_used = snd (getattr demo_env 0 ''dopak'' typo_scoped)"

definition colliding_env :: env where
  "colliding_env =
     demo_env\<lparr>find_real := (\<lambda>cs n.
        if n = ''pak''
        then Inr [''dopak'' \<mapsto> Opaque ''function dopak'', ''__real_module__'' \<mapsto> Opaque ''taken'']
        else Inl (ModuleNotFoundError n))\<rparr>"

text \<open>
  \<open>resolved_inside\<close>: after \<^verbatim>\<open>group.resolve()\<close>, inside the \<^verbatim>\<open>with\<close> block of
  the group, after \<^verbatim>\<open>import pak\<close>. \<open>demo_scoped\<close>: after \<^verbatim>\<open>with group: import pak; import pak.bar\<close>. \<open>demo_used\<close>: after
  \<^verbatim>\<open>pak.dopak\<close> then. \<open>typo_scoped\<close> and \<open>typo_used\<close>: the same with a second
  import of a name, \<^verbatim>\<open>pakk\<close>, that no package has. \<open>colliding_env\<close>: a world whose
  \<^verbatim>\<open>pak\<close> defines \<^verbatim>\<open>__real_module__\<close> itself.
\<close>

subsection \<open>The namespace of a proxy after its first use\<close>

definition first_use_dict :: "state \<Rightarrow> nat \<Rightarrow> nat \<Rightarrow> (string \<rightharpoonup> pyval)" where
  "first_use_dict s2 p r =
     (dict (heap s2 p))(''__real_module__'' \<mapsto> Module r) ++
     (if r = p then (dict (heap s2 p))(''__real_module__'' \<mapsto> Module r) else dict (heap s2 r))"

text \<open>
  What lines 218 and 219 of \<^verbatim>\<open>__getattr__\<close> leave in \<^verbatim>\<open>self.__dict__\<close>, from the
  state \<open>s2\<close> in which the import returned \<open>r\<close>: \<^verbatim>\<open>__real_module__\<close> is set, then the
  namespace of \<open>r\<close>, as it is after that assignment, is written over it.
\<close>

subsection \<open>What an import of an unbound name can load\<close>

definition finds :: "env \<Rightarrow> state \<Rightarrow> string \<Rightarrow> bool" where
  "finds E s k \<longleftrightarrow>
     (case meta_path s of
        g # fs \<Rightarrow> True
      | [] \<Rightarrow> (case find_real E (pip_calls s) k of Inl e \<Rightarrow> False | Inr d \<Rightarrow> True))"

definition finds_package :: "env \<Rightarrow> state \<Rightarrow> string \<Rightarrow> bool" where
  "finds_package E s k \<longleftrightarrow>
     (case meta_path s of
        g # fs \<Rightarrow> True
      | [] \<Rightarrow> (case find_real E (pip_calls s) k of Inl e \<Rightarrow> False | Inr d \<Rightarrow> d ''__path__'' \<noteq> None))"

function loadable :: "env \<Rightarrow> state \<Rightarrow> string \<Rightarrow> bool" where
  "loadable E s k =
     (finds E s k \<and>
      (if fst (rpartition CHR ''.'' k) = [] then True
       else
         (case sys_modules s (fst (rpartition CHR ''.'' k)) of
            Some Halted \<Rightarrow> False
          | Some (Loaded pm) \<Rightarrow> dict (heap s pm) ''__path__'' \<noteq> None
          | None \<Rightarrow>
              finds_package E s (fst (rpartition CHR ''.'' k)) \<and>
              loadable E s (fst (rpartition CHR ''.'' k)))))"
  by pat_completeness auto
termination
proof (relation "measure (\<lambda>(E, s, k). length k)")
  show "wf (measure (\<lambda>(E, s, k). length k))" by simp
next
  fix E :: env and s :: state and k :: string
  assume "fst (rpartition CHR ''.'' k) \<noteq> []"
  then have c: "CHR ''.'' \<in> set k"
    by (auto simp: rpartition_def split: if_splits)
  define ys where "ys = dropWhile (\<lambda>x. x \<noteq> CHR ''.'') (rev k)"
  have "ys \<noteq> []" using c by (simp add: ys_def)
  then have "length (tl ys) < length ys" by (cases ys) simp_all
  moreover have "length ys \<le> length k"
    using length_dropWhile_le [of "\<lambda>x. x \<noteq> CHR ''.''" "rev k"] by (simp add: ys_def)
  moreover have "fst (rpartition CHR ''.'' k) = rev (tl ys)"
    using c by (simp add: rpartition_def ys_def)
  ultimately have "length (fst (rpartition CHR ''.'' k)) < length k" by simp
  then show "((E, s, fst (rpartition CHR ''.'' k)), (E, s, k)) \<in> measure (\<lambda>(E, s, k). length k)"
    by simp
qed

text \<open>
  What decides the import of a name \<open>k\<close> that \<^verbatim>\<open>sys.modules\<close> does not hold.
  \<open>finds E s k\<close>: the first finder finds \<open>k\<close>; a \<^verbatim>\<open>VeryLazyFinder\<close> on the path finds
  every name, without one the finders of the interpreter decide. \<open>finds_package\<close>:
  and what it finds is a package, a module with \<^verbatim>\<open>__path__\<close>; every proxy is one
  (\<^verbatim>\<open>is_package=True\<close>). \<open>loadable E s k\<close>: \<open>k\<close> is found, and the parent of a dotted
  name is bound to a package, or is itself not bound, found as a package, and loadable.
\<close>

section \<open>Properties\<close>

subsection \<open>What \<^verbatim>\<open>pip\<close> and \<^verbatim>\<open>resolve\<close> touch\<close>

lemma pip_frame [simp]:
  "heap (snd (pip E a s)) = heap s" "groups (snd (pip E a s)) = groups s"
  "sys_modules (snd (pip E a s)) = sys_modules s" "meta_path (snd (pip E a s)) = meta_path s"
  "next_ref (snd (pip E a s)) = next_ref s" "stdout (snd (pip E a s)) = stdout s"
  "pip_calls (snd (pip E a s)) = pip_calls s @ [(''pip'' # a, subprocess_run E (pip_calls s) (''pip'' # a))]"
  by (simp_all add: pip_def Let_def split: sum.splits)

lemma pip_result: "fst (pip E a s) = (case subprocess_run E (pip_calls s) (''pip'' # a) of Inl e \<Rightarrow> Inl e | Inr c \<Rightarrow> Inr ())"
  by (simp add: pip_def Let_def split: sum.splits)

lemma print_entries_frame [simp]:
  "heap (snd (print_entries es s)) = heap s" "groups (snd (print_entries es s)) = groups s"
  "sys_modules (snd (print_entries es s)) = sys_modules s" "meta_path (snd (print_entries es s)) = meta_path s"
  "next_ref (snd (print_entries es s)) = next_ref s" "pip_calls (snd (print_entries es s)) = pip_calls s"
  by (induction es arbitrary: s; simp split: option.splits sum.splits)+

lemma install_pending_snd:
  "snd (install_pending E p es s) =
     (if fst (print_entries es s) = Inr () \<and> es \<noteq> [] then snd (pip E (install_args p) (snd (print_entries es s)))
      else snd (print_entries es s))"
  by (cases "print_entries es s") (auto simp: install_pending_def split: sum.splits)

lemma install_pending_frame [simp]:
  "heap (snd (install_pending E p es s)) = heap s" "groups (snd (install_pending E p es s)) = groups s"
  "sys_modules (snd (install_pending E p es s)) = sys_modules s" "meta_path (snd (install_pending E p es s)) = meta_path s"
  "next_ref (snd (install_pending E p es s)) = next_ref s"
  by (simp_all add: install_pending_snd)

lemma dry_run_snd: "snd (dry_run E p f s) = snd (pip E (dry_run_args f p) s)"
  by (cases "pip E (dry_run_args f p) s") (auto simp: dry_run_def split: sum.splits option.splits)

lemma dry_run_frame [simp]:
  "heap (snd (dry_run E p f s)) = heap s" "groups (snd (dry_run E p f s)) = groups s"
  "sys_modules (snd (dry_run E p f s)) = sys_modules s" "meta_path (snd (dry_run E p f s)) = meta_path s"
  "next_ref (snd (dry_run E p f s)) = next_ref s"
  by (simp_all add: dry_run_snd)

lemma resolve_noop: "\<not> need_install (groups s g) \<Longrightarrow> resolve E g s = (Inr (), s)"
  by (simp add: resolve_def)

lemma resolve_snd:
  "\<exists>s1. heap s1 = heap s \<and> groups s1 = groups s \<and> sys_modules s1 = sys_modules s \<and>
      meta_path s1 = meta_path s \<and> next_ref s1 = next_ref s \<and>
      (snd (resolve E g s) = s1 \<and> (\<exists>e. fst (resolve E g s) = Inl e) \<or>
       snd (resolve E g s) = s1\<lparr>groups := (groups s1)(g := (groups s1 g)\<lparr>need_install := False\<rparr>)\<rparr> \<and>
       fst (resolve E g s) = Inr () \<and> need_install (groups s g) \<or>
       snd (resolve E g s) = s \<and> s1 = s \<and> fst (resolve E g s) = Inr () \<and> \<not> need_install (groups s g))"
proof (cases "need_install (groups s g)")
  case False
  then show ?thesis by (simp add: resolve_noop)
next
  case True
  show ?thesis
  proof (cases "locate E s (fst (rpartition CHR '':'' (requires (groups s g)))) (snd (rpartition CHR '':'' (requires (groups s g))))")
    case (Inl e)
    with True show ?thesis by (simp add: resolve_def)
  next
    case (Inr path)
    show ?thesis
    proof (cases "NamedTemporaryFile E (pip_calls s)")
      case (Inl e)
      with True Inr show ?thesis by (simp add: resolve_def)
    next
      case freport: (Inr freport)
      obtain r1 s1 where d: "dry_run E path freport s = (r1, s1)" by (cases "dry_run E path freport s")
      have f1: "heap s1 = heap s" "groups s1 = groups s" "sys_modules s1 = sys_modules s"
        "meta_path s1 = meta_path s" "next_ref s1 = next_ref s"
        using dry_run_frame [of E path freport s] d by simp_all
      show ?thesis
      proof (cases r1)
        case (Inl e)
        with True Inr freport d f1 show ?thesis by (simp add: resolve_def)
      next
        case entries: (Inr entries)
        obtain r3 s3 where i: "install_pending E path entries s1 = (r3, s3)" by (cases "install_pending E path entries s1")
        have f3: "heap s3 = heap s" "groups s3 = groups s" "sys_modules s3 = sys_modules s"
          "meta_path s3 = meta_path s" "next_ref s3 = next_ref s"
          using install_pending_frame [of E path entries s1] i f1 by simp_all
        show ?thesis
        proof (cases r3)
          case (Inl e)
          with True Inr freport d entries i f3 show ?thesis by (simp add: resolve_def)
        next
          case u: (Inr u)
          have "resolve E g s = (Inr (), s3\<lparr>groups := (groups s3)(g := (groups s3 g)\<lparr>need_install := False\<rparr>)\<rparr>)"
            using True Inr freport d entries i u by (simp add: resolve_def)
          with True f3 show ?thesis by (intro exI [of _ s3]) simp
        qed
      qed
    qed
  qed
qed

lemma resolve_frame [simp]:
  "heap (snd (resolve E g s)) = heap s"
  "sys_modules (snd (resolve E g s)) = sys_modules s" "meta_path (snd (resolve E g s)) = meta_path s"
  "next_ref (snd (resolve E g s)) = next_ref s"
  using resolve_snd [of s E g] by auto

lemma resolve_groups:
  "groups (snd (resolve E g s)) =
     (case fst (resolve E g s) of Inl e \<Rightarrow> groups s | Inr u \<Rightarrow> (groups s)(g := (groups s g)\<lparr>need_install := False\<rparr>))"
  using resolve_snd [of s E g] by (auto split: sum.splits)

lemma dry_run_not_install [simp]: "\<not> real_install_done (''pip'' # dry_run_args f p, out)"
  by (cases out) (simp_all add: real_install_done_def dry_run_args_def install_args_def EXTRA_PIP_ARGS_def)

lemma install_is_install [simp]: "real_install_done (''pip'' # install_args p, out) = (\<exists>c. out = Inr c)"
  by (cases out) (simp_all add: real_install_done_def install_args_def EXTRA_PIP_ARGS_def)

lemma dry_run_installs [simp]: "installs (snd (dry_run E p f s)) = installs s"
  by (simp add: dry_run_snd installs_def)

lemma install_pending_installs:
  "installs (snd (install_pending E p es s)) =
     (if es \<noteq> [] \<and> fst (install_pending E p es s) = Inr () then Suc (installs s) else installs s)"
proof (cases "print_entries es s")
  case (Pair r s2)
  have c: "pip_calls s2 = pip_calls s" using print_entries_frame(6) [of es s] Pair by simp
  show ?thesis
  proof (cases r)
    case (Inl e)
    with Pair c show ?thesis by (simp add: install_pending_def installs_def)
  next
    case (Inr u)
    show ?thesis
    proof (cases "es = []")
      case True
      with Pair Inr c show ?thesis by (simp add: install_pending_def installs_def)
    next
      case False
      have "install_pending E p es s = pip E (install_args p) s2"
        using Pair Inr False by (simp add: install_pending_def)
      then show ?thesis using False c
        by (cases "subprocess_run E (pip_calls s) (''pip'' # install_args p)")
           (simp_all add: installs_def pip_result)
    qed
  qed
qed

lemma resolve_potential:
  "installs (snd (resolve E g s)) + (if need_install (groups (snd (resolve E g s)) g) then 1 else 0)
     \<le> installs s + (if need_install (groups s g) then 1 else 0)"
proof (cases "need_install (groups s g)")
  case False
  then show ?thesis by (simp add: resolve_noop)
next
  case True
  show ?thesis
  proof (cases "locate E s (fst (rpartition CHR '':'' (requires (groups s g)))) (snd (rpartition CHR '':'' (requires (groups s g))))")
    case (Inl e)
    with True show ?thesis by (simp add: resolve_def)
  next
    case (Inr path)
    show ?thesis
    proof (cases "NamedTemporaryFile E (pip_calls s)")
      case (Inl e)
      with True Inr show ?thesis by (simp add: resolve_def)
    next
      case freport: (Inr freport)
      obtain r1 s1 where d: "dry_run E path freport s = (r1, s1)" by (cases "dry_run E path freport s")
      have f1: "installs s1 = installs s" "groups s1 = groups s"
        using dry_run_installs [of E path freport s] dry_run_frame(2) [of E path freport s] d by simp_all
      show ?thesis
      proof (cases r1)
        case (Inl e)
        with True Inr freport d f1 show ?thesis by (simp add: resolve_def)
      next
        case entries: (Inr entries)
        obtain r3 s3 where i: "install_pending E path entries s1 = (r3, s3)" by (cases "install_pending E path entries s1")
        have f3: "installs s3 = (if entries \<noteq> [] \<and> r3 = Inr () then Suc (installs s) else installs s)" "groups s3 = groups s"
          using install_pending_installs [of E path entries s1] install_pending_frame(2) [of E path entries s1] i f1 by simp_all
        show ?thesis
        proof (cases r3)
          case (Inl e)
          with True Inr freport d entries i f3 show ?thesis by (simp add: resolve_def)
        next
          case u: (Inr u)
          have "resolve E g s = (Inr (), s3\<lparr>groups := (groups s3)(g := (groups s3 g)\<lparr>need_install := False\<rparr>)\<rparr>)"
            using True Inr freport d entries i u by (simp add: resolve_def)
          with True f3 show ?thesis by (simp add: installs_def)
        qed
      qed
    qed
  qed
qed

lemma resolve_times_potential:
  "installs (resolve_times E g k s) + (if need_install (groups (resolve_times E g k s) g) then 1 else 0)
     \<le> installs s + (if need_install (groups s g) then 1 else 0)"
proof (induction k arbitrary: s)
  case 0
  show ?case by simp
next
  case (Suc k)
  have "installs (resolve_times E g (Suc k) s) + (if need_install (groups (resolve_times E g (Suc k) s) g) then 1 else 0)
      \<le> installs (snd (resolve E g s)) + (if need_install (groups (snd (resolve E g s)) g) then 1 else 0)"
    using Suc.IH [of "snd (resolve E g s)"] by simp
  also have "\<dots> \<le> installs s + (if need_install (groups s g) then 1 else 0)"
    by (rule resolve_potential)
  finally show ?case .
qed

lemma resolve_times_noop: "\<not> need_install (groups s g) \<Longrightarrow> resolve_times E g k s = s"
  by (induction k) (simp_all add: resolve_noop)

lemma print_entries_fst: "fst (print_entries es s) = fst (print_entries es s')"
  by (induction es arbitrary: s s') (auto split: option.splits sum.splits)

lemmas demo_defs =
  demo_env_def demo_locate_def demo_state_def demo_group_def demo_report_def demo_find_def
  stopping_env_def flaky_env_def failing_env_def satisfied_env_def

lemmas resolve_defs =
  resolve_def dry_run_def install_pending_def pip_def dry_run_args_def install_args_def
  EXTRA_PIP_ARGS_def format_entry_def rpartition_def Let_def

subsection \<open>Resolution happens once\<close>

text \<open>
  Claim C2. However often \<^verbatim>\<open>resolve()\<close> is called on a group, at most one real
  installation is performed on top of those already made, and none when the group is
  already resolved (\<^verbatim>\<open>need_install\<close> is false): \<^verbatim>\<open>resolve()\<close> is then a no-op that
  changes no state, so the flag, once cleared, is never set again.
\<close>

theorem resolve_at_most_once:
  "installs (resolve_times E g k s) \<le> installs s + (if need_install (groups s g) then 1 else 0) \<and>
   (\<not> need_install (groups s g) \<longrightarrow> resolve E g s = (Inr (), s)) \<and>
   (\<not> need_install (groups s g) \<longrightarrow> \<not> need_install (groups (resolve_times E g k s) g))"
proof -
  have "installs (resolve_times E g k s) \<le> installs s + (if need_install (groups s g) then 1 else 0)"
    using resolve_times_potential [of E g k s] by (simp split: if_splits)
  then show ?thesis
    by (simp add: resolve_noop resolve_times_noop)
qed

theorem resolve_at_most_once_witness:
  "need_install (groups demo_state 0) \<and>
   installs demo_state = 0 \<and>
   installs (resolve_times demo_env 0 1 demo_state) = 1 \<and>
   installs (resolve_times demo_env 0 3 demo_state) \<le> 1 \<and>
   \<not> need_install (groups (resolve_times demo_env 0 1 demo_state) 0) \<and>
   resolve demo_env 0 (resolve_times demo_env 0 1 demo_state) = (Inr (), resolve_times demo_env 0 1 demo_state) \<and>
   \<not> need_install (groups (resolve_times demo_env 0 2 (resolve_times demo_env 0 1 demo_state)) 0)"
proof -
  have a: "need_install (groups demo_state 0)" "installs demo_state = 0"
    by (simp_all add: demo_defs installs_def)
  have b: "installs (resolve_times demo_env 0 1 demo_state) = 1"
    by (simp add: demo_defs resolve_defs installs_def real_install_done_def)
  have c: "\<not> need_install (groups (resolve_times demo_env 0 1 demo_state) 0)"
    by (simp add: demo_defs resolve_defs)
  from resolve_at_most_once [where E = demo_env and g = 0 and k = 3 and s = demo_state] a
  have d: "installs (resolve_times demo_env 0 3 demo_state) \<le> 1" by simp
  from resolve_at_most_once [where E = demo_env and g = 0 and k = 2
      and s = "resolve_times demo_env 0 1 demo_state"] c
  have e: "resolve demo_env 0 (resolve_times demo_env 0 1 demo_state) = (Inr (), resolve_times demo_env 0 1 demo_state)"
    "\<not> need_install (groups (resolve_times demo_env 0 2 (resolve_times demo_env 0 1 demo_state)) 0)"
    by blast+
  from a b c d e show ?thesis by blast
qed

subsection \<open>A failed resolution leaves the group unresolved\<close>

text \<open>
  Claim C7. When \<^verbatim>\<open>resolve()\<close> raises, wherever it does (locating the requirements,
  the report file, the dry run, reading the report, printing, the installation), no group
  object has changed: in particular \<^verbatim>\<open>need_install\<close> of the group is still true, so the
  next call runs the resolution again instead of returning at once.
\<close>

theorem resolve_failure_keeps_flag:
  assumes "resolve E g s = (Inl e, s')"
  shows "groups s' = groups s \<and> need_install (groups s' g)"
proof -
  have "groups s' = groups s"
    using resolve_groups [of E g s] assms by simp
  moreover have "need_install (groups s g)"
    using assms by (auto simp: resolve_def split: if_splits)
  ultimately show ?thesis by simp
qed

theorem resolve_failure_keeps_flag_witness:
  "fst (resolve flaky_env 0 demo_state) = Inl (OSError ''pip'') \<and>
   groups (snd (resolve flaky_env 0 demo_state)) = groups demo_state \<and>
   need_install (groups (snd (resolve flaky_env 0 demo_state)) 0) \<and>
   fst (resolve flaky_env 0 (snd (resolve flaky_env 0 demo_state))) = Inr () \<and>
   \<not> need_install (groups (snd (resolve flaky_env 0 (snd (resolve flaky_env 0 demo_state)))) 0)"
proof -
  have a: "fst (resolve flaky_env 0 demo_state) = Inl (OSError ''pip'')"
    by (simp add: demo_defs resolve_defs)
  then have "resolve flaky_env 0 demo_state = (Inl (OSError ''pip''), snd (resolve flaky_env 0 demo_state))"
    by (metis prod.collapse)
  from resolve_failure_keeps_flag [OF this]
  have b: "groups (snd (resolve flaky_env 0 demo_state)) = groups demo_state"
    "need_install (groups (snd (resolve flaky_env 0 demo_state)) 0)" by blast+
  have c: "fst (resolve flaky_env 0 (snd (resolve flaky_env 0 demo_state))) = Inr ()"
    "\<not> need_install (groups (snd (resolve flaky_env 0 (snd (resolve flaky_env 0 demo_state)))) 0)"
    by (simp_all add: demo_defs resolve_defs)
  from a b c show ?thesis by blast
qed

subsection \<open>Nothing to install\<close>

text \<open>
  Claim C9. When the dry run reports an empty \<^verbatim>\<open>install\<close> list, \<^verbatim>\<open>resolve()\<close> runs
  no second \<^verbatim>\<open>pip\<close> command: the only command logged is the dry run, no installation has
  been performed, and the group is marked resolved all the same.
\<close>

theorem resolve_empty_install_list:
  assumes "need_install (groups s g)"
    and "locate E s (fst (rpartition CHR '':'' (requires (groups s g))))
           (snd (rpartition CHR '':'' (requires (groups s g)))) = Inr path"
    and "NamedTemporaryFile E (pip_calls s) = Inr freport"
    and "subprocess_run E (pip_calls s) (''pip'' # dry_run_args freport path) = Inr code"
    and "json_load E (pip_calls s @ [(''pip'' # dry_run_args freport path, Inr code)]) freport = Inr (Some [])"
  shows "resolve E g s =
           (Inr (), s\<lparr>pip_calls := pip_calls s @ [(''pip'' # dry_run_args freport path, Inr code)],
                      groups := (groups s)(g := (groups s g)\<lparr>need_install := False\<rparr>)\<rparr>) \<and>
         installs (snd (resolve E g s)) = installs s"
proof -
  have d: "dry_run E path freport s =
             (Inr [], s\<lparr>pip_calls := pip_calls s @ [(''pip'' # dry_run_args freport path, Inr code)]\<rparr>)"
    using assms(4,5) by (simp add: dry_run_def pip_def)
  have r: "resolve E g s =
           (Inr (), s\<lparr>pip_calls := pip_calls s @ [(''pip'' # dry_run_args freport path, Inr code)],
                      groups := (groups s)(g := (groups s g)\<lparr>need_install := False\<rparr>)\<rparr>)"
    using assms(1,2,3) d by (simp add: resolve_def install_pending_def)
  then show ?thesis by (simp add: installs_def)
qed

theorem resolve_empty_install_list_witness:
  "need_install (groups demo_state 0) \<and>
   fst (resolve satisfied_env 0 demo_state) = Inr () \<and>
   pip_calls (snd (resolve satisfied_env 0 demo_state)) =
     [(''pip'' # dry_run_args ''/tmp/report'' ''/site/pak/requirements.txt'', Inr 0)] \<and>
   \<not> need_install (groups (snd (resolve satisfied_env 0 demo_state)) 0) \<and>
   installs (snd (resolve satisfied_env 0 demo_state)) = 0"
proof -
  have 1: "need_install (groups demo_state 0)"
    by (simp add: demo_defs)
  have 2: "locate satisfied_env demo_state (fst (rpartition CHR '':'' (requires (groups demo_state 0))))
           (snd (rpartition CHR '':'' (requires (groups demo_state 0)))) = Inr ''/site/pak/requirements.txt''"
    by (simp add: demo_defs rpartition_def)
  have 3: "NamedTemporaryFile satisfied_env (pip_calls demo_state) = Inr ''/tmp/report''"
    by (simp add: demo_defs)
  have 4: "subprocess_run satisfied_env (pip_calls demo_state)
             (''pip'' # dry_run_args ''/tmp/report'' ''/site/pak/requirements.txt'') = Inr 0"
    by (simp add: demo_defs)
  have 5: "json_load satisfied_env (pip_calls demo_state @
             [(''pip'' # dry_run_args ''/tmp/report'' ''/site/pak/requirements.txt'', Inr 0)]) ''/tmp/report'' = Inr (Some [])"
    by (simp add: demo_defs)
  have 6: "pip_calls demo_state = []" "installs demo_state = 0"
    by (simp_all add: demo_defs installs_def)
  note r = resolve_empty_install_list [OF 1 2 3 4 5]
  have 7: "installs (snd (resolve satisfied_env 0 demo_state)) = 0"
    using conjunct2 [OF r] 6 by simp
  from r have 8: "resolve satisfied_env 0 demo_state =
      (Inr (), demo_state\<lparr>pip_calls := pip_calls demo_state @
          [(''pip'' # dry_run_args ''/tmp/report'' ''/site/pak/requirements.txt'', Inr 0)],
        groups := (groups demo_state)(0 := (groups demo_state 0)\<lparr>need_install := False\<rparr>)\<rparr>)"
    by blast
  have 9: "fst (resolve satisfied_env 0 demo_state) = Inr ()"
    "pip_calls (snd (resolve satisfied_env 0 demo_state)) =
       [(''pip'' # dry_run_args ''/tmp/report'' ''/site/pak/requirements.txt'', Inr 0)]"
    "\<not> need_install (groups (snd (resolve satisfied_env 0 demo_state)) 0)"
    using 6 by (simp_all add: 8)
  from 1 7 9 show ?thesis by blast
qed

subsection \<open>The exit status of \<^verbatim>\<open>pip\<close>\<close>

text \<open>
  Claim C4 says that a \<^verbatim>\<open>pip\<close> run that exits with a failure status raises an
  installation error. \<^verbatim>\<open>pip()\<close> calls \<^verbatim>\<open>subprocess.run\<close> without \<^verbatim>\<open>check=True\<close> and
  drops the result: in a world where every \<^verbatim>\<open>pip\<close> command exits with status 1 and the
  report can still be read, the dry run and the installation both return normally,
  \<^verbatim>\<open>resolve()\<close> returns normally and the group is marked resolved.
\<close>

theorem pip_failure_status_not_raised:
  "subprocess_run failing_env [] (''pip'' # install_args ''/site/pak/requirements.txt'') = Inr 1 \<and>
   fst (pip failing_env (install_args ''/site/pak/requirements.txt'') demo_state) = Inr () \<and>
   fst (resolve failing_env 0 demo_state) = Inr () \<and>
   map snd (pip_calls (snd (resolve failing_env 0 demo_state))) = [Inr 1, Inr 1] \<and>
   \<not> need_install (groups (snd (resolve failing_env 0 demo_state)) 0)"
  by (simp add: demo_defs resolve_defs)

text \<open>
  Claim C4, amended. \<^verbatim>\<open>pip()\<close> runs the command once and never looks at the exit
  status: it returns normally whenever \<^verbatim>\<open>subprocess.run\<close> returns, and raises exactly
  what \<^verbatim>\<open>subprocess.run\<close> raises (the command could not be run), which \<^verbatim>\<open>resolve()\<close>
  passes on to its caller without a second attempt, for the dry run and for the
  installation alike, leaving the group unresolved. So when both commands run, whatever
  their exit statuses, and the report can be read and printed, \<^verbatim>\<open>resolve()\<close> returns
  normally and marks the group resolved.
\<close>

theorem pip_exit_status_ignored:
  "(subprocess_run E (pip_calls s) (''pip'' # args) = Inr code \<longrightarrow>
      pip E args s = (Inr (), s\<lparr>pip_calls := pip_calls s @ [(''pip'' # args, Inr code)]\<rparr>)) \<and>
   (subprocess_run E (pip_calls s) (''pip'' # args) = Inl e \<longrightarrow>
      pip E args s = (Inl e, s\<lparr>pip_calls := pip_calls s @ [(''pip'' # args, Inl e)]\<rparr>)) \<and>
   (need_install (groups s g) \<and>
    locate E s (fst (rpartition CHR '':'' (requires (groups s g))))
      (snd (rpartition CHR '':'' (requires (groups s g)))) = Inr path \<and>
    NamedTemporaryFile E (pip_calls s) = Inr freport \<and>
    subprocess_run E (pip_calls s) (''pip'' # dry_run_args freport path) = Inl e \<longrightarrow>
      resolve E g s = (Inl e, s\<lparr>pip_calls := pip_calls s @ [(''pip'' # dry_run_args freport path, Inl e)]\<rparr>)) \<and>
   (need_install (groups s g) \<and>
    locate E s (fst (rpartition CHR '':'' (requires (groups s g))))
      (snd (rpartition CHR '':'' (requires (groups s g)))) = Inr path \<and>
    NamedTemporaryFile E (pip_calls s) = Inr freport \<and>
    subprocess_run E (pip_calls s) (''pip'' # dry_run_args freport path) = Inr dcode \<and>
    json_load E (pip_calls s @ [(''pip'' # dry_run_args freport path, Inr dcode)]) freport = Inr (Some entries) \<and>
    fst (print_entries entries s) = Inr () \<and>
    subprocess_run E (pip_calls s @ [(''pip'' # dry_run_args freport path, Inr dcode)])
      (''pip'' # install_args path) = Inr icode \<longrightarrow>
      fst (resolve E g s) = Inr () \<and> \<not> need_install (groups (snd (resolve E g s)) g)) \<and>
   (need_install (groups s g) \<and>
    locate E s (fst (rpartition CHR '':'' (requires (groups s g))))
      (snd (rpartition CHR '':'' (requires (groups s g)))) = Inr path \<and>
    NamedTemporaryFile E (pip_calls s) = Inr freport \<and>
    subprocess_run E (pip_calls s) (''pip'' # dry_run_args freport path) = Inr dcode \<and>
    json_load E (pip_calls s @ [(''pip'' # dry_run_args freport path, Inr dcode)]) freport = Inr (Some entries) \<and>
    entries \<noteq> [] \<and>
    fst (print_entries entries s) = Inr () \<and>
    subprocess_run E (pip_calls s @ [(''pip'' # dry_run_args freport path, Inr dcode)])
      (''pip'' # install_args path) = Inl e \<longrightarrow>
      fst (resolve E g s) = Inl e \<and> need_install (groups (snd (resolve E g s)) g) \<and>
      map fst (pip_calls (snd (resolve E g s))) =
        map fst (pip_calls s) @ [''pip'' # dry_run_args freport path, ''pip'' # install_args path])"
proof (intro conjI impI)
  assume "subprocess_run E (pip_calls s) (''pip'' # args) = Inr code"
  then show "pip E args s = (Inr (), s\<lparr>pip_calls := pip_calls s @ [(''pip'' # args, Inr code)]\<rparr>)"
    by (simp add: pip_def)
next
  assume "subprocess_run E (pip_calls s) (''pip'' # args) = Inl e"
  then show "pip E args s = (Inl e, s\<lparr>pip_calls := pip_calls s @ [(''pip'' # args, Inl e)]\<rparr>)"
    by (simp add: pip_def)
next
  assume "need_install (groups s g) \<and>
    locate E s (fst (rpartition CHR '':'' (requires (groups s g))))
      (snd (rpartition CHR '':'' (requires (groups s g)))) = Inr path \<and>
    NamedTemporaryFile E (pip_calls s) = Inr freport \<and>
    subprocess_run E (pip_calls s) (''pip'' # dry_run_args freport path) = Inl e"
  then show "resolve E g s = (Inl e, s\<lparr>pip_calls := pip_calls s @ [(''pip'' # dry_run_args freport path, Inl e)]\<rparr>)"
    by (simp add: resolve_def dry_run_def pip_def)
next
  assume h: "need_install (groups s g) \<and>
    locate E s (fst (rpartition CHR '':'' (requires (groups s g))))
      (snd (rpartition CHR '':'' (requires (groups s g)))) = Inr path \<and>
    NamedTemporaryFile E (pip_calls s) = Inr freport \<and>
    subprocess_run E (pip_calls s) (''pip'' # dry_run_args freport path) = Inr dcode \<and>
    json_load E (pip_calls s @ [(''pip'' # dry_run_args freport path, Inr dcode)]) freport = Inr (Some entries) \<and>
    fst (print_entries entries s) = Inr () \<and>
    subprocess_run E (pip_calls s @ [(''pip'' # dry_run_args freport path, Inr dcode)])
      (''pip'' # install_args path) = Inr icode"
  define s1 where "s1 = s\<lparr>pip_calls := pip_calls s @ [(''pip'' # dry_run_args freport path, Inr dcode)]\<rparr>"
  have d: "dry_run E path freport s = (Inr entries, s1)"
    using h by (simp add: dry_run_def pip_def s1_def)
  obtain s2 where p: "print_entries entries s1 = (Inr (), s2)"
    using h print_entries_fst [of entries s1 s] by (cases "print_entries entries s1") simp
  have c: "pip_calls s2 = pip_calls s1"
    using print_entries_frame(6) [of entries s1] p by simp
  have "fst (install_pending E path entries s1) = Inr ()"
    using p c h by (simp add: install_pending_def pip_result s1_def)
  then obtain s3 where i: "install_pending E path entries s1 = (Inr (), s3)"
    by (cases "install_pending E path entries s1") simp
  have "resolve E g s = (Inr (), s3\<lparr>groups := (groups s3)(g := (groups s3 g)\<lparr>need_install := False\<rparr>)\<rparr>)"
    using h d i by (simp add: resolve_def)
  then show "fst (resolve E g s) = Inr ()" "\<not> need_install (groups (snd (resolve E g s)) g)"
    by simp_all
next
  assume h: "need_install (groups s g) \<and>
    locate E s (fst (rpartition CHR '':'' (requires (groups s g))))
      (snd (rpartition CHR '':'' (requires (groups s g)))) = Inr path \<and>
    NamedTemporaryFile E (pip_calls s) = Inr freport \<and>
    subprocess_run E (pip_calls s) (''pip'' # dry_run_args freport path) = Inr dcode \<and>
    json_load E (pip_calls s @ [(''pip'' # dry_run_args freport path, Inr dcode)]) freport = Inr (Some entries) \<and>
    entries \<noteq> [] \<and>
    fst (print_entries entries s) = Inr () \<and>
    subprocess_run E (pip_calls s @ [(''pip'' # dry_run_args freport path, Inr dcode)])
      (''pip'' # install_args path) = Inl e"
  define s1 where "s1 = s\<lparr>pip_calls := pip_calls s @ [(''pip'' # dry_run_args freport path, Inr dcode)]\<rparr>"
  have d: "dry_run E path freport s = (Inr entries, s1)"
    using h by (simp add: dry_run_def pip_def s1_def)
  obtain s2 where p: "print_entries entries s1 = (Inr (), s2)"
    using h print_entries_fst [of entries s1 s] by (cases "print_entries entries s1") simp
  have c: "pip_calls s2 = pip_calls s1"
    using print_entries_frame(6) [of entries s1] p by simp
  have "groups (snd (print_entries entries s1)) = groups s1" by simp
  with p have "groups s2 = groups s1" by simp
  then have g2: "groups s2 = groups s" by (simp add: s1_def)
  have i: "install_pending E path entries s1 =
      (Inl e, s2\<lparr>pip_calls := pip_calls s2 @ [(''pip'' # install_args path, Inl e)]\<rparr>)"
    using p c h by (simp add: install_pending_def pip_def s1_def)
  have "resolve E g s = (Inl e, s2\<lparr>pip_calls := pip_calls s2 @ [(''pip'' # install_args path, Inl e)]\<rparr>)"
    using h d i by (simp add: resolve_def)
  then show "fst (resolve E g s) = Inl e" "need_install (groups (snd (resolve E g s)) g)"
    "map fst (pip_calls (snd (resolve E g s))) =
        map fst (pip_calls s) @ [''pip'' # dry_run_args freport path, ''pip'' # install_args path]"
    using h g2 c by (simp_all add: s1_def)
qed

theorem pip_exit_status_ignored_witness:
  "subprocess_run failing_env (pip_calls demo_state) (''pip'' # install_args ''r.txt'') = Inr 1 \<and>
   pip failing_env (install_args ''r.txt'') demo_state =
     (Inr (), demo_state\<lparr>pip_calls := pip_calls demo_state @ [(''pip'' # install_args ''r.txt'', Inr 1)]\<rparr>) \<and>
   subprocess_run flaky_env (pip_calls demo_state) (''pip'' # install_args ''r.txt'') = Inl (OSError ''pip'') \<and>
   pip flaky_env (install_args ''r.txt'') demo_state =
     (Inl (OSError ''pip''),
      demo_state\<lparr>pip_calls := pip_calls demo_state @ [(''pip'' # install_args ''r.txt'', Inl (OSError ''pip''))]\<rparr>) \<and>
   resolve flaky_env 0 demo_state =
     (Inl (OSError ''pip''),
      demo_state\<lparr>pip_calls := pip_calls demo_state @
        [(''pip'' # dry_run_args ''/tmp/report'' ''/site/pak/requirements.txt'', Inl (OSError ''pip''))]\<rparr>) \<and>
   fst (resolve failing_env 0 demo_state) = Inr () \<and>
   \<not> need_install (groups (snd (resolve failing_env 0 demo_state)) 0) \<and>
   subprocess_run stopping_env (pip_calls demo_state)
     (''pip'' # dry_run_args ''/tmp/report'' ''/site/pak/requirements.txt'') = Inr 0 \<and>
   subprocess_run stopping_env (pip_calls demo_state @
      [(''pip'' # dry_run_args ''/tmp/report'' ''/site/pak/requirements.txt'', Inr 0)])
      (''pip'' # install_args ''/site/pak/requirements.txt'') = Inl (OSError ''pip'') \<and>
   fst (resolve stopping_env 0 demo_state) = Inl (OSError ''pip'') \<and>
   need_install (groups (snd (resolve stopping_env 0 demo_state)) 0) \<and>
   map fst (pip_calls (snd (resolve stopping_env 0 demo_state))) =
     [''pip'' # dry_run_args ''/tmp/report'' ''/site/pak/requirements.txt'',
      ''pip'' # install_args ''/site/pak/requirements.txt'']"
proof -
  have 1: "subprocess_run failing_env (pip_calls demo_state) (''pip'' # install_args ''r.txt'') = Inr 1"
    by (simp add: demo_defs)
  have 2: "subprocess_run flaky_env (pip_calls demo_state) (''pip'' # install_args ''r.txt'') = Inl (OSError ''pip'')"
    by (simp add: demo_defs)
  have 3: "need_install (groups demo_state 0) \<and>
    locate flaky_env demo_state (fst (rpartition CHR '':'' (requires (groups demo_state 0))))
      (snd (rpartition CHR '':'' (requires (groups demo_state 0)))) = Inr ''/site/pak/requirements.txt'' \<and>
    NamedTemporaryFile flaky_env (pip_calls demo_state) = Inr ''/tmp/report'' \<and>
    subprocess_run flaky_env (pip_calls demo_state)
      (''pip'' # dry_run_args ''/tmp/report'' ''/site/pak/requirements.txt'') = Inl (OSError ''pip'')"
    by (simp add: demo_defs rpartition_def)
  have 4: "need_install (groups demo_state 0) \<and>
    locate failing_env demo_state (fst (rpartition CHR '':'' (requires (groups demo_state 0))))
      (snd (rpartition CHR '':'' (requires (groups demo_state 0)))) = Inr ''/site/pak/requirements.txt'' \<and>
    NamedTemporaryFile failing_env (pip_calls demo_state) = Inr ''/tmp/report'' \<and>
    subprocess_run failing_env (pip_calls demo_state)
      (''pip'' # dry_run_args ''/tmp/report'' ''/site/pak/requirements.txt'') = Inr 1 \<and>
    json_load failing_env (pip_calls demo_state @
      [(''pip'' # dry_run_args ''/tmp/report'' ''/site/pak/requirements.txt'', Inr 1)]) ''/tmp/report'' =
      Inr (Some (the demo_report)) \<and>
    fst (print_entries (the demo_report) demo_state) = Inr () \<and>
    subprocess_run failing_env (pip_calls demo_state @
      [(''pip'' # dry_run_args ''/tmp/report'' ''/site/pak/requirements.txt'', Inr 1)])
      (''pip'' # install_args ''/site/pak/requirements.txt'') = Inr 1"
    by (simp add: demo_defs rpartition_def format_entry_def)
  note a = pip_exit_status_ignored [where E = failing_env and s = demo_state and g = 0
      and args = "install_args ''r.txt''" and code = 1 and dcode = 1 and icode = 1
      and path = "''/site/pak/requirements.txt''" and freport = "''/tmp/report''"
      and entries = "the demo_report"]
  note b = pip_exit_status_ignored [where E = flaky_env and s = demo_state and g = 0
      and args = "install_args ''r.txt''" and e = "OSError ''pip''"
      and path = "''/site/pak/requirements.txt''" and freport = "''/tmp/report''"]
  from a 1 have 5: "pip failing_env (install_args ''r.txt'') demo_state =
     (Inr (), demo_state\<lparr>pip_calls := pip_calls demo_state @ [(''pip'' # install_args ''r.txt'', Inr 1)]\<rparr>)"
    by blast
  from a 4 have 6: "fst (resolve failing_env 0 demo_state) = Inr ()"
    "\<not> need_install (groups (snd (resolve failing_env 0 demo_state)) 0)"
    by blast+
  from b 2 have 7: "pip flaky_env (install_args ''r.txt'') demo_state =
     (Inl (OSError ''pip''),
      demo_state\<lparr>pip_calls := pip_calls demo_state @ [(''pip'' # install_args ''r.txt'', Inl (OSError ''pip''))]\<rparr>)"
    by blast
  from b 3 have 8: "resolve flaky_env 0 demo_state =
     (Inl (OSError ''pip''),
      demo_state\<lparr>pip_calls := pip_calls demo_state @
        [(''pip'' # dry_run_args ''/tmp/report'' ''/site/pak/requirements.txt'', Inl (OSError ''pip''))]\<rparr>)"
    by blast
  have 9: "need_install (groups demo_state 0) \<and>
    locate stopping_env demo_state (fst (rpartition CHR '':'' (requires (groups demo_state 0))))
      (snd (rpartition CHR '':'' (requires (groups demo_state 0)))) = Inr ''/site/pak/requirements.txt'' \<and>
    NamedTemporaryFile stopping_env (pip_calls demo_state) = Inr ''/tmp/report'' \<and>
    subprocess_run stopping_env (pip_calls demo_state)
      (''pip'' # dry_run_args ''/tmp/report'' ''/site/pak/requirements.txt'') = Inr 0 \<and>
    json_load stopping_env (pip_calls demo_state @
      [(''pip'' # dry_run_args ''/tmp/report'' ''/site/pak/requirements.txt'', Inr 0)]) ''/tmp/report'' =
      Inr (Some (the demo_report)) \<and>
    the demo_report \<noteq> [] \<and>
    fst (print_entries (the demo_report) demo_state) = Inr () \<and>
    subprocess_run stopping_env (pip_calls demo_state @
      [(''pip'' # dry_run_args ''/tmp/report'' ''/site/pak/requirements.txt'', Inr 0)])
      (''pip'' # install_args ''/site/pak/requirements.txt'') = Inl (OSError ''pip'')"
    by (simp add: demo_defs stopping_env_def rpartition_def format_entry_def)
  note c = pip_exit_status_ignored [where E = stopping_env and s = demo_state and g = 0
      and dcode = 0 and e = "OSError ''pip''"
      and path = "''/site/pak/requirements.txt''" and freport = "''/tmp/report''"
      and entries = "the demo_report"]
  from c 9 have 10: "fst (resolve stopping_env 0 demo_state) = Inl (OSError ''pip'') \<and>
      need_install (groups (snd (resolve stopping_env 0 demo_state)) 0) \<and>
      map fst (pip_calls (snd (resolve stopping_env 0 demo_state))) =
        map fst (pip_calls demo_state) @
          [''pip'' # dry_run_args ''/tmp/report'' ''/site/pak/requirements.txt'',
           ''pip'' # install_args ''/site/pak/requirements.txt'']"
    by blast
  have 11: "pip_calls demo_state = []" by (simp add: demo_defs)
  from 9 have 12: "subprocess_run stopping_env (pip_calls demo_state)
      (''pip'' # dry_run_args ''/tmp/report'' ''/site/pak/requirements.txt'') = Inr 0"
    "subprocess_run stopping_env (pip_calls demo_state @
      [(''pip'' # dry_run_args ''/tmp/report'' ''/site/pak/requirements.txt'', Inr 0)])
      (''pip'' # install_args ''/site/pak/requirements.txt'') = Inl (OSError ''pip'')"
    by blast+
  from 10 11 have 13: "fst (resolve stopping_env 0 demo_state) = Inl (OSError ''pip'')"
    "need_install (groups (snd (resolve stopping_env 0 demo_state)) 0)"
    "map fst (pip_calls (snd (resolve stopping_env 0 demo_state))) =
     [''pip'' # dry_run_args ''/tmp/report'' ''/site/pak/requirements.txt'',
      ''pip'' # install_args ''/site/pak/requirements.txt'']"
    by simp_all
  from 1 2 5 6 7 8 12 13 show ?thesis by blast
qed

subsection \<open>\<^verbatim>\<open>lock\<close> and \<^verbatim>\<open>unlock\<close>\<close>

lemma lock_items_ok:
  "(\<And>n m. (n, m) \<in> set ms \<Longrightarrow> sm n \<noteq> None) \<Longrightarrow> fst (lock_items ms sm) = Inr ()"
proof (induction ms arbitrary: sm)
  case Nil
  show ?case by simp
next
  case (Cons a ms)
  obtain n0 m0 where a: "a = (n0, m0)" by (cases a)
  from Cons.prems [of n0 m0] a obtain e where e: "sm n0 = Some e" by auto
  let ?sm1 = "if e = Loaded m0 then sm(n0 \<mapsto> Halted) else sm"
  have "fst (lock_items ms ?sm1) = Inr ()"
  proof (rule Cons.IH)
    fix n m
    assume "(n, m) \<in> set ms"
    then have "sm n \<noteq> None" using Cons.prems [of n m] by simp
    then show "?sm1 n \<noteq> None" by simp
  qed
  then show ?case using a e by simp
qed

lemma lock_items_result:
  "lock_items ms sm = (Inr (), sm') \<Longrightarrow>
     sm' n = (if \<exists>m. (n, m) \<in> set ms \<and> sm n = Some (Loaded m) then Some Halted else sm n)"
proof (induction ms arbitrary: sm)
  case Nil
  then show ?case by simp
next
  case (Cons a ms)
  obtain n0 m0 where a: "a = (n0, m0)" by (cases a)
  from Cons.prems a obtain e where e: "sm n0 = Some e"
    by (cases "sm n0") auto
  let ?sm1 = "if e = Loaded m0 then sm(n0 \<mapsto> Halted) else sm"
  have "lock_items ms ?sm1 = (Inr (), sm')"
    using Cons.prems a e by simp
  from Cons.IH [OF this] have "sm' n = (if \<exists>m. (n, m) \<in> set ms \<and> ?sm1 n = Some (Loaded m) then Some Halted else ?sm1 n)" .
  then show ?case using a e by (auto split: if_splits)
qed

lemma lock_items_raises:
  "(n, m) \<in> set ms \<Longrightarrow> sm n = None \<Longrightarrow> \<exists>k. fst (lock_items ms sm) = Inl (KeyError k)"
proof (induction ms arbitrary: sm)
  case Nil
  then show ?case by simp
next
  case (Cons a ms)
  obtain n0 m0 where a: "a = (n0, m0)" by (cases a)
  show ?case
  proof (cases "sm n0")
    case None
    with a show ?thesis by simp
  next
    case (Some e)
    let ?sm1 = "if e = Loaded m0 then sm(n0 \<mapsto> Halted) else sm"
    from Cons.prems a Some have "(n, m) \<in> set ms" "?sm1 n = None" by auto
    then have "\<exists>k. fst (lock_items ms ?sm1) = Inl (KeyError k)" by (rule Cons.IH)
    then show ?thesis using a Some by simp
  qed
qed

lemma unlock_names_result:
  "unlock_names ns sm n = (if n \<in> set ns \<and> sm n = Some Halted then None else sm n)"
  by (induction ns arbitrary: sm) auto

lemma unlock_frame [simp]:
  "heap (unlock g s) = heap s" "groups (unlock g s) = groups s" "meta_path (unlock g s) = meta_path s"
  "next_ref (unlock g s) = next_ref s" "pip_calls (unlock g s) = pip_calls s" "stdout (unlock g s) = stdout s"
  by (simp_all add: unlock_def)

lemma unlock_sys_modules:
  "sys_modules (unlock g s) n =
     (if n \<in> fst ` set (modules (groups s g)) \<and> sys_modules s n = Some Halted then None else sys_modules s n)"
  by (simp add: unlock_def unlock_names_result)

lemma lock_frame [simp]:
  "heap (snd (lock g s)) = heap s" "groups (snd (lock g s)) = groups s" "meta_path (snd (lock g s)) = meta_path s"
  "next_ref (snd (lock g s)) = next_ref s" "pip_calls (snd (lock g s)) = pip_calls s" "stdout (snd (lock g s)) = stdout s"
  by (simp_all add: lock_def split: prod.splits)

subsection \<open>The import machinery preserves the registry\<close>

lemma import_step_refl [simp]: "import_step s s"
  by (simp add: import_step_def)

lemma import_step_trans:
  assumes "import_step s s1" "import_step s1 s2"
  shows "import_step s s2"
  unfolding import_step_def
proof (intro conjI allI impI)
  show "meta_path s2 = meta_path s" "pip_calls s2 = pip_calls s" "stdout s2 = stdout s" "next_ref s \<le> next_ref s2"
    using assms by (simp_all add: import_step_def)
next
  fix k e assume "sys_modules s k = Some e"
  then show "sys_modules s2 k = Some e" using assms by (simp add: import_step_def)
next
  fix k assume k: "sys_modules s k = None"
  from assms have le: "next_ref s \<le> next_ref s1" "next_ref s1 \<le> next_ref s2" by (simp_all add: import_step_def)
  from assms(1) k have "sys_modules s1 k = None \<or>
          (\<exists>m. sys_modules s1 k = Some (Loaded m) \<and> next_ref s \<le> m \<and> m < next_ref s1)"
    by (simp add: import_step_def)
  then show "sys_modules s2 k = None \<or>
          (\<exists>m. sys_modules s2 k = Some (Loaded m) \<and> next_ref s \<le> m \<and> m < next_ref s2)"
  proof
    assume "sys_modules s1 k = None"
    with assms(2) have "sys_modules s2 k = None \<or>
          (\<exists>m. sys_modules s2 k = Some (Loaded m) \<and> next_ref s1 \<le> m \<and> m < next_ref s2)"
      by (simp add: import_step_def)
    with le show ?thesis by auto
  next
    assume "\<exists>m. sys_modules s1 k = Some (Loaded m) \<and> next_ref s \<le> m \<and> m < next_ref s1"
    then obtain m where m: "sys_modules s1 k = Some (Loaded m)" "next_ref s \<le> m" "m < next_ref s1" by blast
    with assms(2) have "sys_modules s2 k = Some (Loaded m)" by (simp add: import_step_def)
    with m le show ?thesis by auto
  qed
next
  fix g
  show "need_install (groups s2 g) = need_install (groups s g)" "requires (groups s2 g) = requires (groups s g)"
    using assms by (simp_all add: import_step_def)
next
  fix g k m assume "(k, m) \<in> set (modules (groups s2 g))"
  with assms(2) have "(k, m) \<in> set (modules (groups s1 g)) \<or> sys_modules s1 k = None \<and> sys_modules s2 k = Some (Loaded m)"
    by (simp add: import_step_def)
  then show "(k, m) \<in> set (modules (groups s g)) \<or> sys_modules s k = None \<and> sys_modules s2 k = Some (Loaded m)"
  proof
    assume "(k, m) \<in> set (modules (groups s1 g))"
    with assms(1) have "(k, m) \<in> set (modules (groups s g)) \<or> sys_modules s k = None \<and> sys_modules s1 k = Some (Loaded m)"
      by (simp add: import_step_def)
    then show ?thesis
    proof
      assume "(k, m) \<in> set (modules (groups s g))" then show ?thesis ..
    next
      assume a: "sys_modules s k = None \<and> sys_modules s1 k = Some (Loaded m)"
      with assms(2) have "sys_modules s2 k = Some (Loaded m)" by (simp add: import_step_def)
      with a show ?thesis by simp
    qed
  next
    assume a: "sys_modules s1 k = None \<and> sys_modules s2 k = Some (Loaded m)"
    have "sys_modules s k = None"
    proof (cases "sys_modules s k")
      case None then show ?thesis .
    next
      case (Some e)
      with assms(1) have "sys_modules s1 k = Some e" by (simp add: import_step_def)
      with a show ?thesis by simp
    qed
    with a show ?thesis by simp
  qed
next
  fix p assume p: "p < next_ref s"
  from assms(1) have "next_ref s \<le> next_ref s1" by (simp add: import_step_def)
  with p have "p < next_ref s1" by simp
  with assms(2) have "cls (heap s2 p) = cls (heap s1 p)" by (simp add: import_step_def)
  moreover from assms(1) p have "cls (heap s1 p) = cls (heap s p)" by (simp add: import_step_def)
  ultimately show "cls (heap s2 p) = cls (heap s p)" by simp
qed

lemma set_frame [simp]:
  "groups (set_cls m c s) = groups s" "sys_modules (set_cls m c s) = sys_modules s"
  "meta_path (set_cls m c s) = meta_path s" "next_ref (set_cls m c s) = next_ref s"
  "pip_calls (set_cls m c s) = pip_calls s" "stdout (set_cls m c s) = stdout s"
  "groups (set_dict m d s) = groups s" "sys_modules (set_dict m d s) = sys_modules s"
  "meta_path (set_dict m d s) = meta_path s" "next_ref (set_dict m d s) = next_ref s"
  "pip_calls (set_dict m d s) = pip_calls s" "stdout (set_dict m d s) = stdout s"
  by (simp_all add: set_cls_def set_dict_def)

lemma set_heap [simp]:
  "cls (heap (set_cls m c s) p) = (if p = m then c else cls (heap s p))"
  "dict (heap (set_cls m c s) p) = dict (heap s p)"
  "cls (heap (set_dict m d s) p) = cls (heap s p)"
  "dict (heap (set_dict m d s) p) = (if p = m then d else dict (heap s p))"
  by (simp_all add: set_cls_def set_dict_def)

lemma AList_update_set: "(k, m) \<in> set (AList.update n v al) \<Longrightarrow> (k, m) \<in> set al \<or> (k, m) = (n, v)"
  by (induction al) (auto split: if_splits)

lemma load_unlocked_lazy:
  "meta_path s = g # fs \<Longrightarrow>
   load_unlocked E n s =
     (Inr (next_ref s),
      s\<lparr>heap := (heap s)(next_ref s :=
            \<lparr>cls = VeryLazyModule,
             dict = [''__name__'' \<mapsto> Str n, ''__doc__'' \<mapsto> PyNone,
                     ''__package__'' \<mapsto> Str n, ''__loader__'' \<mapsto> Loader,
                     ''__spec__'' \<mapsto> ModuleSpec n (Some g), ''__path__'' \<mapsto> Path []]\<rparr>),
        next_ref := Suc (next_ref s),
        sys_modules := (sys_modules s)(n \<mapsto> Loaded (next_ref s)),
        groups := (groups s)(g := (groups s g)\<lparr>modules := AList.update n (next_ref s) (modules (groups s g))\<rparr>)\<rparr>)"
  by (simp add: load_unlocked_def module_from_spec_def find_spec_def spec_name_def exec_module_def
      register_def set_cls_def)

lemma load_unlocked_step:
  assumes "sys_modules s n = None"
  shows "import_step s (snd (load_unlocked E n s))"
proof (cases "meta_path s")
  case Nil
  then show ?thesis using assms
    by (cases "find_real E (pip_calls s) n") (auto simp: load_unlocked_def import_step_def)
next
  case (Cons g fs)
  show ?thesis
    unfolding load_unlocked_lazy [OF Cons] import_step_def using assms
    by (auto dest: AList_update_set)
qed

lemma load_unlocked_result:
  "load_unlocked E n s = (Inr m, s') \<Longrightarrow> sys_modules s' n = Some (Loaded m) \<and> m = next_ref s \<and> m < next_ref s'"
proof (cases "meta_path s")
  case Nil
  assume "load_unlocked E n s = (Inr m, s')"
  with Nil show ?thesis
    by (cases "find_real E (pip_calls s) n") (auto simp: load_unlocked_def)
next
  case (Cons g fs)
  assume "load_unlocked E n s = (Inr m, s')"
  then show ?thesis unfolding load_unlocked_lazy [OF Cons] by auto
qed

lemma bind_child_step: "import_step s (snd (bind_child parent child m s))"
  by (auto simp: bind_child_def import_step_def split: option.splits entry.splits)

lemma bind_child_result:
  "bind_child parent child m s = (Inr r, s') \<Longrightarrow> r = m \<and> sys_modules s' = sys_modules s \<and> next_ref s' = next_ref s"
  by (auto simp: bind_child_def split: option.splits entry.splits)

lemma load_child_step:
  assumes "sys_modules s n = None"
  shows "import_step s (snd (load_child E parent n s))"
proof (cases "load_unlocked E n s")
  case (Pair r s2)
  have 1: "import_step s s2" using load_unlocked_step [OF assms, of E] Pair by simp
  show ?thesis
  proof (cases r)
    case (Inl e)
    with Pair 1 show ?thesis
      by (auto simp: load_child_def split: option.splits entry.splits)
  next
    case (Inr m)
    have "import_step s2 (snd (bind_child parent (snd (rpartition CHR ''.'' n)) m s2))"
      by (rule bind_child_step)
    with 1 have "import_step s (snd (bind_child parent (snd (rpartition CHR ''.'' n)) m s2))"
      by (rule import_step_trans)
    with Pair Inr show ?thesis
      by (auto simp: load_child_def split: option.splits entry.splits)
  qed
qed

lemma load_child_result:
  assumes "load_child E parent n s = (Inr m, s')"
  shows "sys_modules s' n = Some (Loaded m) \<and> m = next_ref s \<and> m < next_ref s'"
proof -
  from assms obtain s2 where l: "load_unlocked E n s = (Inr m, s2)"
    and b: "bind_child parent (snd (rpartition CHR ''.'' n)) m s2 = (Inr m, s')"
    by (auto simp: load_child_def split: option.splits entry.splits if_splits prod.splits sum.splits
        dest: bind_child_result)
  from load_unlocked_result [OF l] bind_child_result [OF b] show ?thesis by simp
qed

declare import_module.simps [simp del]

lemma rpartition_fst_length:
  assumes "fst (rpartition c n) \<noteq> []"
  shows "length (fst (rpartition c n)) < length n"
proof -
  from assms have c: "c \<in> set n"
    by (auto simp: rpartition_def split: if_splits)
  define ys where "ys = dropWhile (\<lambda>x. x \<noteq> c) (rev n)"
  have "ys \<noteq> []" using c by (simp add: ys_def)
  then have "length (tl ys) < length ys" by (cases ys) simp_all
  moreover have "length ys \<le> length n"
    using length_dropWhile_le [of "\<lambda>x. x \<noteq> c" "rev n"] by (simp add: ys_def)
  moreover have "fst (rpartition c n) = rev (tl ys)"
    using c by (simp add: rpartition_def ys_def)
  ultimately show ?thesis by simp
qed

lemma load_unlocked_keys: "sys_modules s k = None \<Longrightarrow> sys_modules (snd (load_unlocked E n s)) k \<noteq> None \<Longrightarrow> k = n"
proof (cases "meta_path s")
  case Nil
  assume "sys_modules s k = None" "sys_modules (snd (load_unlocked E n s)) k \<noteq> None"
  with Nil show ?thesis
    by (cases "find_real E (pip_calls s) n") (auto simp: load_unlocked_def split: if_splits)
next
  case (Cons g fs)
  assume "sys_modules s k = None" "sys_modules (snd (load_unlocked E n s)) k \<noteq> None"
  then show ?thesis unfolding load_unlocked_lazy [OF Cons] by (auto split: if_splits)
qed

lemma bind_child_sys_modules [simp]: "sys_modules (snd (bind_child parent child m s)) = sys_modules s"
  by (auto simp: bind_child_def split: option.splits entry.splits)

lemma load_child_keys:
  assumes "sys_modules s k = None" "sys_modules (snd (load_child E parent n s)) k \<noteq> None"
  shows "k = n"
proof (cases "load_unlocked E n s")
  case (Pair r s2)
  from assms(2) Pair have "sys_modules s2 k \<noteq> None"
    by (cases r) (auto simp: load_child_def assms(1) split: option.splits entry.splits if_splits)
  with load_unlocked_keys [OF assms(1), of E n] Pair show ?thesis by simp
qed

lemma import_module_unfold:
  "sys_modules s n = None \<Longrightarrow> fst (rpartition CHR ''.'' n) = [] \<Longrightarrow> import_module E n s = load_unlocked E n s"
  "sys_modules s n = None \<Longrightarrow> fst (rpartition CHR ''.'' n) \<noteq> [] \<Longrightarrow> sys_modules s (fst (rpartition CHR ''.'' n)) = Some e \<Longrightarrow>
     import_module E n s = load_child E (fst (rpartition CHR ''.'' n)) n s"
  "sys_modules s n = None \<Longrightarrow> fst (rpartition CHR ''.'' n) \<noteq> [] \<Longrightarrow> sys_modules s (fst (rpartition CHR ''.'' n)) = None \<Longrightarrow>
     import_module E n s =
       (case import_module E (fst (rpartition CHR ''.'' n)) s of
          (Inl e, s1) \<Rightarrow> (Inl e, s1)
        | (Inr u, s1) \<Rightarrow> load_child E (fst (rpartition CHR ''.'' n)) n s1)"
  "sys_modules s n = Some Halted \<Longrightarrow> import_module E n s = (Inl (ModuleNotFoundError_halted n), s)"
  "sys_modules s n = Some (Loaded r) \<Longrightarrow> import_module E n s = (Inr r, s)"
  by (simp_all add: import_module.simps [of E n s])

lemma import_module_step_keys:
  "import_step s (snd (import_module E n s)) \<and> new_keys_below s (snd (import_module E n s)) (length n)"
proof (induction E n s rule: import_module.induct)
  case (1 E n s)
  show ?case
  proof (cases "sys_modules s n")
    case (Some e)
    then show ?thesis by (cases e) (simp_all add: import_module_unfold new_keys_below_def)
  next
    case None
    let ?p = "fst (rpartition CHR ''.'' n)"
    show ?thesis
    proof (cases "?p = []")
      case True
      with None show ?thesis
        using load_unlocked_step [OF None, of E] load_unlocked_keys [of s _ E n]
        by (auto simp: import_module_unfold new_keys_below_def)
    next
      case False
      show ?thesis
      proof (cases "sys_modules s ?p")
        case (Some e)
        with None False show ?thesis
          using load_child_step [OF None, of E ?p] load_child_keys [of s _ E ?p n]
          by (auto simp: import_module_unfold(2) [OF None False Some] new_keys_below_def)
      next
        case pn: None
        obtain r s1 where i: "import_module E ?p s = (r, s1)" by (cases "import_module E ?p s")
        have st: "import_step s s1" and kb: "new_keys_below s s1 (length ?p)"
          using "1.IH" [OF None False pn] i by simp_all
        have lt: "length ?p < length n" by (rule rpartition_fst_length [OF False])
        show ?thesis
        proof (cases r)
          case (Inl e)
          have "new_keys_below s s1 (length n)"
            unfolding new_keys_below_def
          proof (intro allI impI)
            fix k assume "sys_modules s k = None" "sys_modules s1 k \<noteq> None"
            with kb have "length k \<le> length ?p" unfolding new_keys_below_def by blast
            with lt show "length k \<le> length n" by simp
          qed
          with i st Inl show ?thesis
            by (simp add: import_module_unfold(3) [OF None False pn])
        next
          case (Inr u)
          have n1: "sys_modules s1 n = None"
          proof (rule ccontr)
            assume "sys_modules s1 n \<noteq> None"
            with kb None have "length n \<le> length ?p" by (simp add: new_keys_below_def)
            with lt show False by simp
          qed
          have eq: "import_module E n s = load_child E ?p n s1"
            using i Inr by (simp add: import_module_unfold(3) [OF None False pn])
          have "import_step s1 (snd (load_child E ?p n s1))" by (rule load_child_step [OF n1])
          with st have a: "import_step s (snd (load_child E ?p n s1))" by (rule import_step_trans)
          have b: "new_keys_below s (snd (load_child E ?p n s1)) (length n)"
            unfolding new_keys_below_def
          proof (intro allI impI)
            fix k assume k: "sys_modules s k = None" "sys_modules (snd (load_child E ?p n s1)) k \<noteq> None"
            show "length k \<le> length n"
            proof (cases "sys_modules s1 k")
              case None
              from load_child_keys [OF None k(2)] show ?thesis by simp
            next
              case (Some e)
              with kb k(1) have "length k \<le> length ?p" by (simp add: new_keys_below_def)
              with lt show ?thesis by simp
            qed
          qed
          from a b show ?thesis by (simp add: eq)
        qed
      qed
    qed
  qed
qed

lemma import_module_step: "import_step s (snd (import_module E n s))"
  using import_module_step_keys by blast

lemma import_module_result:
  "import_module E n s = (Inr m, s') \<Longrightarrow>
     sys_modules s' n = Some (Loaded m) \<and> (sys_modules s n = None \<longrightarrow> next_ref s \<le> m \<and> m < next_ref s')"
proof (induction E n s arbitrary: m s' rule: import_module.induct)
  case (1 E n s)
  show ?case
  proof (cases "sys_modules s n")
    case (Some e)
    with "1.prems" show ?thesis by (cases e) (simp_all add: import_module_unfold)
  next
    case None
    let ?p = "fst (rpartition CHR ''.'' n)"
    show ?thesis
    proof (cases "?p = []")
      case True
      with None "1.prems" have "load_unlocked E n s = (Inr m, s')" by (simp add: import_module_unfold)
      from load_unlocked_result [OF this] show ?thesis by simp
    next
      case False
      show ?thesis
      proof (cases "sys_modules s ?p")
        case (Some e)
        with None False "1.prems" have "load_child E ?p n s = (Inr m, s')"
          by (simp add: import_module_unfold(2) [OF None False Some])
        from load_child_result [OF this] show ?thesis by simp
      next
        case pn: None
        obtain r s1 where i: "import_module E ?p s = (r, s1)" by (cases "import_module E ?p s")
        from "1.prems" i obtain u where r: "r = Inr u" and l: "load_child E ?p n s1 = (Inr m, s')"
          by (cases r) (simp_all add: import_module_unfold(3) [OF None False pn])
        have "import_step s s1" using import_module_step [of s E ?p] i by simp
        then have "next_ref s \<le> next_ref s1" by (simp add: import_step_def)
        with load_child_result [OF l] show ?thesis by simp
      qed
    qed
  qed
qed

subsection \<open>The first use of a proxy, step by step\<close>

lemma set_dict_twice [simp]: "set_dict p d2 (set_dict p d1 s) = set_dict p d2 s"
  by (simp add: set_dict_def)

lemma type_attributes_mono: "a \<in> set (type_attributes ModuleType) \<Longrightarrow> a \<in> set (type_attributes c)"
  by (cases c) (auto simp: type_attributes_def)

lemma object_getattribute_frame [simp]:
  "groups (snd (object_getattribute m a s)) = groups s"
  "sys_modules (snd (object_getattribute m a s)) = sys_modules s"
  "meta_path (snd (object_getattribute m a s)) = meta_path s"
  "next_ref (snd (object_getattribute m a s)) = next_ref s"
  "pip_calls (snd (object_getattribute m a s)) = pip_calls s"
  "stdout (snd (object_getattribute m a s)) = stdout s"
  "cls (heap (snd (object_getattribute m a s)) q) = cls (heap s q)"
  by (simp_all add: object_getattribute_def split: option.splits)

lemma object_getattribute_dict_frame:
  "b \<noteq> ''__annotations__'' \<Longrightarrow> dict (heap (snd (object_getattribute m a s)) q) b = dict (heap s q) b"
  "q \<noteq> m \<Longrightarrow> dict (heap (snd (object_getattribute m a s)) q) = dict (heap s q)"
  by (simp_all add: object_getattribute_def split: option.splits)

lemma object_getattribute_state:
  "a \<noteq> ''__annotations__'' \<Longrightarrow> snd (object_getattribute m a s) = s"
  by (simp add: object_getattribute_def split: option.splits)

lemma object_getattribute_not_held: "\<not> held s m a \<Longrightarrow> object_getattribute m a s = (None, s)"
  by (auto simp: held_def object_getattribute_def data_descriptors_def)

lemma object_getattribute_held: "held s m a \<Longrightarrow> \<exists>v. fst (object_getattribute m a s) = Some v"
  by (auto simp: held_def object_getattribute_def data_descriptors_def split: option.splits)

lemma object_getattribute_dict:
  "dict (heap s m) a = Some v \<Longrightarrow> a \<noteq> ''__class__'' \<Longrightarrow> a \<noteq> ''__dict__'' \<Longrightarrow>
     object_getattribute m a s = (Some v, s)"
  by (simp add: object_getattribute_def)

lemma module_getattr_frame [simp]:
  "groups (snd (module_getattr m a s)) = groups s"
  "sys_modules (snd (module_getattr m a s)) = sys_modules s"
  "meta_path (snd (module_getattr m a s)) = meta_path s"
  "next_ref (snd (module_getattr m a s)) = next_ref s"
  "pip_calls (snd (module_getattr m a s)) = pip_calls s"
  "stdout (snd (module_getattr m a s)) = stdout s"
  "cls (heap (snd (module_getattr m a s)) q) = cls (heap s q)"
proof -
  have "snd (module_getattr m a s) = snd (object_getattribute m a s)"
    by (cases "object_getattribute m a s") (auto simp: module_getattr_def split: option.splits)
  then show "groups (snd (module_getattr m a s)) = groups s"
    "sys_modules (snd (module_getattr m a s)) = sys_modules s"
    "meta_path (snd (module_getattr m a s)) = meta_path s"
    "next_ref (snd (module_getattr m a s)) = next_ref s"
    "pip_calls (snd (module_getattr m a s)) = pip_calls s"
    "stdout (snd (module_getattr m a s)) = stdout s"
    "cls (heap (snd (module_getattr m a s)) q) = cls (heap s q)"
    by simp_all
qed

lemma module_getattr_dict_frame:
  "b \<noteq> ''__annotations__'' \<Longrightarrow> dict (heap (snd (module_getattr m a s)) q) b = dict (heap s q) b"
  "q \<noteq> m \<Longrightarrow> dict (heap (snd (module_getattr m a s)) q) = dict (heap s q)"
proof -
  have e: "snd (module_getattr m a s) = snd (object_getattribute m a s)"
    by (cases "object_getattribute m a s") (auto simp: module_getattr_def split: option.splits)
  show "b \<noteq> ''__annotations__'' \<Longrightarrow> dict (heap (snd (module_getattr m a s)) q) b = dict (heap s q) b"
    by (simp add: e object_getattribute_dict_frame)
  show "q \<noteq> m \<Longrightarrow> dict (heap (snd (module_getattr m a s)) q) = dict (heap s q)"
    by (simp add: e object_getattribute_dict_frame)
qed

lemma module_getattr_not_held: "\<not> held s m a \<Longrightarrow> module_getattr m a s = (Inl (AttributeError a), s)"
  by (simp add: module_getattr_def object_getattribute_not_held)

lemma module_getattr_dict:
  "dict (heap s m) a = Some v \<Longrightarrow> a \<noteq> ''__class__'' \<Longrightarrow> a \<noteq> ''__dict__'' \<Longrightarrow>
     module_getattr m a s = (Inr v, s)"
  by (simp add: module_getattr_def object_getattribute_dict)

lemma vlm_cases [consumes 1, case_names resolve_fails import_fails loaded]:
  assumes "dict (heap s p) ''__spec__'' = Some (ModuleSpec n (Some g))"
  obtains
    e s1 where "resolve E g (unlock g (set_cls p ModuleType s)) = (Inl e, s1)"
      and "VeryLazyModule_getattr E p attr s = (Inl e, s1)"
  | s1 e s2 where "resolve E g (unlock g (set_cls p ModuleType s)) = (Inr (), s1)"
      and "import_module E n s1 = (Inl e, s2)"
      and "VeryLazyModule_getattr E p attr s = (Inl e, s2)"
  | s1 r s2 where "resolve E g (unlock g (set_cls p ModuleType s)) = (Inr (), s1)"
      and "import_module E n s1 = (Inr r, s2)"
      and "VeryLazyModule_getattr E p attr s =
             module_getattr p attr (set_dict p (first_use_dict s2 p r) s2)"
proof (cases "resolve E g (unlock g (set_cls p ModuleType s))")
  case (Pair r1 s1)
  show ?thesis
  proof (cases r1)
    case (Inl e)
    with Pair assms have "VeryLazyModule_getattr E p attr s = (Inl e, s1)"
      by (simp add: VeryLazyModule_getattr_def)
    with Pair Inl that(1) show ?thesis by blast
  next
    case (Inr u)
    obtain r2 s2 where i: "import_module E n s1 = (r2, s2)" by (cases "import_module E n s1")
    show ?thesis
    proof (cases r2)
      case (Inl e)
      with Pair Inr i assms have "VeryLazyModule_getattr E p attr s = (Inl e, s2)"
        by (simp add: VeryLazyModule_getattr_def)
      with Pair Inr i Inl that(2) show ?thesis by simp
    next
      case r: (Inr r)
      have "VeryLazyModule_getattr E p attr s =
             module_getattr p attr (set_dict p (first_use_dict s2 p r) s2)"
        using Pair Inr i r assms
        by (simp add: VeryLazyModule_getattr_def first_use_dict_def)
      with Pair Inr i r that(3) show ?thesis by simp
    qed
  qed
qed

lemma vlm_no_spec:
  assumes "\<not> (\<exists>n g. dict (heap s p) ''__spec__'' = Some (ModuleSpec n (Some g)))"
  shows "\<exists>e. VeryLazyModule_getattr E p attr s = (Inl e, set_cls p ModuleType s)"
proof (cases "dict (heap s p) ''__spec__''")
  case None
  then show ?thesis by (simp add: VeryLazyModule_getattr_def)
next
  case (Some v)
  show ?thesis
  proof (cases v)
    case (ModuleSpec n st)
    with assms Some have "st = None" by (cases st) auto
    with Some ModuleSpec show ?thesis by (simp add: VeryLazyModule_getattr_def)
  qed (use Some in \<open>simp_all add: VeryLazyModule_getattr_def\<close>)
qed

lemma prepared_frame:
  "next_ref (snd (resolve E g (unlock g (set_cls p c s)))) = next_ref s"
  "cls (heap (snd (resolve E g (unlock g (set_cls p c s)))) q) = (if q = p then c else cls (heap s q))"
  "dict (heap (snd (resolve E g (unlock g (set_cls p c s)))) q) = dict (heap s q)"
  "meta_path (snd (resolve E g (unlock g (set_cls p c s)))) = meta_path s"
  "sys_modules (snd (resolve E g (unlock g (set_cls p c s)))) = sys_modules (unlock g s)"
  by (simp_all add: unlock_def)

lemma vlm_cls:
  assumes "p < next_ref s" "VeryLazyModule_getattr E p attr s = (res, s')"
  shows "cls (heap s' p) = ModuleType"
    and "q \<noteq> p \<Longrightarrow> q < next_ref s \<Longrightarrow> cls (heap s' q) = cls (heap s q)"
proof -
  have "cls (heap s' p) = ModuleType \<and> (q \<noteq> p \<longrightarrow> q < next_ref s \<longrightarrow> cls (heap s' q) = cls (heap s q))"
  proof (cases "\<exists>n g. dict (heap s p) ''__spec__'' = Some (ModuleSpec n (Some g))")
    case False
    from vlm_no_spec [OF False, of E attr] assms(2) show ?thesis by auto
  next
    case True
    then obtain n g where sp: "dict (heap s p) ''__spec__'' = Some (ModuleSpec n (Some g))" by blast
    let ?s0 = "unlock g (set_cls p ModuleType s)"
    from sp show ?thesis
    proof (cases rule: vlm_cases [where E = E and attr = attr])
      case (resolve_fails e s1)
      then have "s' = snd (resolve E g ?s0)" using assms(2) by simp
      then show ?thesis by (simp add: prepared_frame)
    next
      case (import_fails s1 e s2)
      have s1: "s1 = snd (resolve E g ?s0)" using import_fails(1) by simp
      have "import_step s1 s2" using import_module_step [of s1 E n] import_fails(2) by simp
      then have "\<forall>x. x < next_ref s1 \<longrightarrow> cls (heap s2 x) = cls (heap s1 x)"
        by (simp add: import_step_def)
      moreover have "s' = s2" using import_fails(3) assms(2) by simp
      ultimately show ?thesis using assms(1) by (simp add: s1 prepared_frame)
    next
      case (loaded s1 r s2)
      have s1: "s1 = snd (resolve E g ?s0)" using loaded(1) by simp
      have "import_step s1 s2" using import_module_step [of s1 E n] loaded(2) by simp
      then have "\<forall>x. x < next_ref s1 \<longrightarrow> cls (heap s2 x) = cls (heap s1 x)"
        by (simp add: import_step_def)
      moreover have "s' = snd (module_getattr p attr (set_dict p (first_use_dict s2 p r) s2))"
        using loaded(3) assms(2) by (metis snd_conv)
      ultimately show ?thesis using assms(1) by (simp add: s1 prepared_frame)
    qed
  qed
  then show "cls (heap s' p) = ModuleType"
    and "q \<noteq> p \<Longrightarrow> q < next_ref s \<Longrightarrow> cls (heap s' q) = cls (heap s q)" by blast+
qed

lemma getattr_plain:
  "cls (heap s p) = ModuleType \<Longrightarrow> getattr E p a s = module_getattr p a s"
  by (cases "object_getattribute p a s") (auto simp: getattr_def module_getattr_def split: option.splits)

lemma getattr_proxy:
  "cls (heap s p) = VeryLazyModule \<Longrightarrow> \<not> held s p a \<Longrightarrow>
     getattr E p a s = VeryLazyModule_getattr E p a s"
  by (simp add: getattr_def object_getattribute_not_held)

lemma resolve_failure_flag:
  assumes "resolve E g s = (Inl e, s')"
  shows "groups s' = groups s" and "need_install (groups s' g)"
proof -
  show "groups s' = groups s"
    using resolve_groups [of E g s] assms by simp
  moreover have "need_install (groups s g)"
    using assms by (auto simp: resolve_def split: if_splits)
  ultimately show "need_install (groups s' g)" by simp
qed

lemma resolve_modules [simp]: "modules (groups (snd (resolve E g s)) h) = modules (groups s h)"
  using resolve_groups [of E g s] by (cases "fst (resolve E g s)") simp_all

lemma first_use_heap:
  "dict (heap (set_dict p (first_use_dict s2 p r) s2) p) = first_use_dict s2 p r"
  "q \<noteq> p \<Longrightarrow> dict (heap (set_dict p (first_use_dict s2 p r) s2) q) = dict (heap s2 q)"
  by simp_all

lemma first_use_copies:
  assumes "dict (heap (set_dict p (first_use_dict s2 p r) s2) r) a = Some w"
  shows "dict (heap (set_dict p (first_use_dict s2 p r) s2) p) a = Some w"
proof (cases "r = p")
  case True
  with assms show ?thesis by simp
next
  case False
  with assms have "dict (heap s2 r) a = Some w" by simp
  with False show ?thesis by (simp add: first_use_dict_def)
qed

lemma first_use_unlocks:
  assumes r: "resolve E g (unlock g (set_cls p ModuleType s)) = (res, s1)"
    and i: "import_module E n s1 = (res', s2)"
    and m: "(k, m) \<in> set (modules (groups s2 g))"
  shows "sys_modules s2 k \<noteq> Some Halted"
proof -
  have s1: "s1 = snd (resolve E g (unlock g (set_cls p ModuleType s)))" using r by simp
  have st: "import_step s1 s2" using import_module_step [of s1 E n] i by simp
  have sm1: "sys_modules s1 = sys_modules (unlock g s)" by (simp add: s1 unlock_def)
  from st m have "(k, m) \<in> set (modules (groups s1 g)) \<or> sys_modules s1 k = None \<and> sys_modules s2 k = Some (Loaded m)"
    unfolding import_step_def by blast
  then show ?thesis
  proof
    assume "(k, m) \<in> set (modules (groups s1 g))"
    then have "(k, m) \<in> set (modules (groups s g))" by (simp add: s1)
    then have "k \<in> fst ` set (modules (groups s g))" by force
    then have nh: "sys_modules s1 k \<noteq> Some Halted" by (simp add: sm1 unlock_sys_modules)
    show ?thesis
    proof (cases "sys_modules s1 k")
      case None
      with st have "sys_modules s2 k = None \<or> (\<exists>x. sys_modules s2 k = Some (Loaded x))"
        unfolding import_step_def by blast
      then show ?thesis by auto
    next
      case (Some e)
      with st have "sys_modules s2 k = Some e" unfolding import_step_def by blast
      with nh Some show ?thesis by simp
    qed
  next
    assume "sys_modules s1 k = None \<and> sys_modules s2 k = Some (Loaded m)"
    then show ?thesis by simp
  qed
qed

lemma first_use_resolved:
  assumes r: "resolve E g s0 = (Inr (), s1)" and i: "import_module E n s1 = (res', s2)"
  shows "\<not> need_install (groups s2 g)"
proof -
  have "\<not> need_install (groups s1 g)" using resolve_groups [of E g s0] r by simp
  moreover have "import_step s1 s2" using import_module_step [of s1 E n] i by simp
  ultimately show ?thesis by (simp add: import_step_def)
qed

lemmas import_defs =
  import_module.simps load_unlocked_def load_child_def bind_child_def module_from_spec_def
  find_spec_def spec_name_def exec_module_def register_def set_cls_def set_dict_def
  enter_def exit_def lock_def unlock_def scope_def

lemmas getattr_defs =
  getattr_def VeryLazyModule_getattr_def module_getattr_def real_module_def
  object_getattribute_def data_descriptors_def type_attributes_def held_def

lemmas scenario_defs =
  resolved_inside_def demo_scoped_def demo_used_def typo_scoped_def typo_used_def colliding_env_def

lemma getattr_held:
  "dict (heap s p) a = Some v \<Longrightarrow> a \<noteq> ''__class__'' \<Longrightarrow> a \<noteq> ''__dict__'' \<Longrightarrow>
     getattr E p a s = (Inr v, s)"
  by (simp add: getattr_def object_getattribute_dict)

lemma module_getattr_value:
  assumes "a \<notin> set data_descriptors" and "a \<notin> set (type_attributes VeryLazyModule)"
    and "module_getattr m a s = (Inr v, s')"
  shows "s' = s \<and> dict (heap s m) a = Some v"
proof -
  have "a \<notin> set (type_attributes (cls (heap s m)))"
    using assms(2) by (cases "cls (heap s m)") (auto simp: type_attributes_def)
  with assms(1,3) show ?thesis
    by (cases "dict (heap s m) a")
       (auto simp: module_getattr_def object_getattribute_def data_descriptors_def)
qed

lemma demo_scoped_facts:
  "fst (scope demo_env 0 [''pak'', ''pak.bar''] demo_state) = Inr ()"
  "modules (groups demo_scoped 0) = [(''pak'', 0), (''pak.bar'', 1)]"
  "sys_modules demo_scoped ''pak'' = Some Halted"
  "sys_modules demo_scoped ''pak.bar'' = Some Halted"
  "cls (heap demo_scoped 0) = VeryLazyModule"
  "cls (heap demo_scoped 1) = VeryLazyModule"
  "dict (heap demo_scoped 0) ''__spec__'' = Some (ModuleSpec ''pak'' (Some 0))"
  "dict (heap demo_scoped 0) ''bar'' = Some (Module 1)"
  "dict (heap demo_scoped 0) ''dopak'' = None"
  "dict (heap demo_scoped 0) ''__real_module__'' = None"
  "\<not> held demo_scoped 0 ''dopak''"
  "next_ref demo_scoped = 2"
  "meta_path demo_scoped = []"
  "need_install (groups demo_scoped 0)"
  by (simp_all add: scenario_defs demo_defs import_defs rpartition_def held_def
      data_descriptors_def type_attributes_def)

lemma demo_used_facts:
  "getattr demo_env 0 ''dopak'' demo_scoped = (Inr (Opaque ''function dopak''), demo_used)"
  "sys_modules demo_used ''pak'' = Some (Loaded 2)"
  "sys_modules demo_used ''pak.bar'' = None"
  "cls (heap demo_used 0) = ModuleType"
  "cls (heap demo_used 1) = VeryLazyModule"
  "dict (heap demo_used 0) ''dopak'' = Some (Opaque ''function dopak'')"
  "dict (heap demo_used 2) ''dopak'' = Some (Opaque ''function dopak'')"
  "dict (heap demo_used 0) ''__real_module__'' = Some (Module 2)"
  "\<not> need_install (groups demo_used 0)"
  "modules (groups demo_used 0) = [(''pak'', 0), (''pak.bar'', 1)]"
  "stdout demo_used = [''installing fuzzywuzzy==0.18.0 (Fuzzy string matching in python)'']"
  "map fst (pip_calls demo_used) =
     [''pip'' # dry_run_args ''/tmp/report'' ''/site/pak/requirements.txt'',
      ''pip'' # install_args ''/site/pak/requirements.txt'']"
proof -
  show "getattr demo_env 0 ''dopak'' demo_scoped = (Inr (Opaque ''function dopak''), demo_used)"
    unfolding demo_used_def
    by (rule prod_eqI)
       (simp_all add: demo_scoped_def demo_defs import_defs getattr_defs resolve_defs rpartition_def
          real_install_done_def)
qed (simp_all add: scenario_defs demo_defs import_defs getattr_defs resolve_defs rpartition_def
       real_install_done_def)

subsection \<open>The first use of a proxy\<close>

text \<open>
  Claim C1 says that the first attribute access on a proxy triggers the resolution.
  Python calls \<^verbatim>\<open>__getattr__\<close> only for an attribute that the ordinary lookup does not
  find, and that lookup finds what the type of the proxy provides (\<^verbatim>\<open>__class__\<close>,
  \<^verbatim>\<open>__repr__\<close>, ...) and what the proxy holds: the attributes that the import
  machinery gives every module (\<^verbatim>\<open>exec_module\<close> itself reads \<^verbatim>\<open>module.__spec__\<close> of
  the proxy), and its submodules, which the import of \<^verbatim>\<open>pak.bar\<close> binds on the proxy
  of \<^verbatim>\<open>pak\<close>. After \<^verbatim>\<open>with group: import pak; import pak.bar\<close> the accesses
  \<^verbatim>\<open>pak.bar\<close>, \<^verbatim>\<open>pak.__spec__\<close> and \<^verbatim>\<open>pak.__class__\<close> return these and change
  nothing: \<^verbatim>\<open>pak\<close> is still a \<^verbatim>\<open>VeryLazyModule\<close>, its name is still halted,
  nothing was installed.
\<close>

theorem held_attribute_triggers_nothing:
  "cls (heap demo_scoped 0) = VeryLazyModule \<and>
   getattr demo_env 0 ''bar'' demo_scoped = (Inr (Module 1), demo_scoped) \<and>
   getattr demo_env 0 ''__spec__'' demo_scoped = (Inr (ModuleSpec ''pak'' (Some 0)), demo_scoped) \<and>
   getattr demo_env 0 ''__class__'' demo_scoped = (Inr (PyClass VeryLazyModule), demo_scoped) \<and>
   sys_modules demo_scoped ''pak'' = Some Halted \<and>
   need_install (groups demo_scoped 0)"
proof -
  have "getattr demo_env 0 ''__class__'' demo_scoped = (Inr (PyClass VeryLazyModule), demo_scoped)"
    by (simp add: getattr_def object_getattribute_def demo_scoped_facts)
  then show ?thesis
    using getattr_held [of demo_scoped 0 "''bar''" "Module 1" demo_env]
      getattr_held [of demo_scoped 0 "''__spec__''" "ModuleSpec ''pak'' (Some 0)" demo_env]
    by (simp add: demo_scoped_facts)
qed

text \<open>
  Claim C1, amended. For a proxy of a group (a \<^verbatim>\<open>VeryLazyModule\<close> whose spec names the
  group), the first access to an attribute that the ordinary lookup does not find
  (neither the type of the proxy nor its namespace provides it) runs, in this order:
  the class reset and \<^verbatim>\<open>unlock\<close> of the group, \<^verbatim>\<open>resolve\<close> on the state so obtained, the import of the proxy's name on the state that \<^verbatim>\<open>resolve\<close> left, and
  the copy of the namespace of the imported module \<open>r\<close> over the proxy's. When the access
  returns a value, that value is the attribute now held by the proxy; every attribute
  in the namespace of \<open>r\<close> is in the namespace of the proxy with the same value, and is
  what an access to it on the proxy returns; the group is resolved, so that
  \<^verbatim>\<open>resolve()\<close> is a no-op from then on; and no name of the group is halted any more.
\<close>

theorem first_use:
  assumes "cls (heap s p) = VeryLazyModule" and "\<not> held s p attr"
    and "dict (heap s p) ''__spec__'' = Some (ModuleSpec n (Some g))"
    and "getattr E p attr s = (Inr v, s')"
  shows "\<exists>s1 r s2.
           resolve E g (unlock g (set_cls p ModuleType s)) = (Inr (), s1) \<and>
           import_module E n s1 = (Inr r, s2) \<and>
           s' = set_dict p (first_use_dict s2 p r) s2 \<and>
           dict (heap s' p) attr = Some v \<and>
           (\<forall>a w. dict (heap s' r) a = Some w \<longrightarrow> dict (heap s' p) a = Some w) \<and>
           (\<forall>a w. dict (heap s' r) a = Some w \<and> a \<noteq> ''__class__'' \<and> a \<noteq> ''__dict__'' \<longrightarrow>
              getattr E' p a s' = (Inr w, s')) \<and>
           \<not> need_install (groups s' g) \<and>
           resolve E' g s' = (Inr (), s') \<and>
           (\<forall>(k, m) \<in> set (modules (groups s' g)). sys_modules s' k \<noteq> Some Halted)"
proof -
  have v: "VeryLazyModule_getattr E p attr s = (Inr v, s')"
    using assms(1,2,4) by (simp add: getattr_proxy)
  have nd: "attr \<notin> set data_descriptors" and nt: "attr \<notin> set (type_attributes VeryLazyModule)"
    using assms(1,2) by (simp_all add: held_def)
  from assms(3) show ?thesis
  proof (cases rule: vlm_cases [where E = E and attr = attr])
    case (resolve_fails e s1)
    with v show ?thesis by simp
  next
    case (import_fails s1 e s2)
    with v show ?thesis by simp
  next
    case (loaded s1 r s2)
    let ?s' = "set_dict p (first_use_dict s2 p r) s2"
    from loaded(3) v have "module_getattr p attr ?s' = (Inr v, s')" by simp
    from module_getattr_value [OF nd nt this]
    have s': "s' = ?s'" and a: "dict (heap s' p) attr = Some v" by simp_all
    have b: "\<forall>a w. dict (heap s' r) a = Some w \<longrightarrow> dict (heap s' p) a = Some w"
      unfolding s' using first_use_copies by blast
    have b': "\<forall>a w. dict (heap s' r) a = Some w \<and> a \<noteq> ''__class__'' \<and> a \<noteq> ''__dict__'' \<longrightarrow>
              getattr E' p a s' = (Inr w, s')"
      using b getattr_held by blast
    have c: "\<not> need_install (groups s' g)"
      using first_use_resolved [OF loaded(1,2)] by (simp add: s')
    have d: "resolve E' g s' = (Inr (), s')" using c by (rule resolve_noop)
    have e: "\<forall>(k, m) \<in> set (modules (groups s' g)). sys_modules s' k \<noteq> Some Halted"
      using first_use_unlocks [OF loaded(1,2)] by (auto simp: s')
    from loaded(1,2) s' a b b' c d e show ?thesis by blast
  qed
qed

theorem first_use_witness:
  "cls (heap demo_scoped 0) = VeryLazyModule \<and>
   \<not> held demo_scoped 0 ''dopak'' \<and>
   dict (heap demo_scoped 0) ''__spec__'' = Some (ModuleSpec ''pak'' (Some 0)) \<and>
   getattr demo_env 0 ''dopak'' demo_scoped = (Inr (Opaque ''function dopak''), demo_used) \<and>
   dict (heap demo_used 0) ''dopak'' = Some (Opaque ''function dopak'') \<and>
   \<not> need_install (groups demo_used 0) \<and>
   resolve flaky_env 0 demo_used = (Inr (), demo_used) \<and>
   sys_modules demo_used ''pak'' \<noteq> Some Halted \<and>
   sys_modules demo_used ''pak.bar'' \<noteq> Some Halted"
proof -
  note h = demo_scoped_facts(5) demo_scoped_facts(11) demo_scoped_facts(7) demo_used_facts(1)
  from first_use [OF h, where E' = flaky_env] obtain s1 r s2 where
    a: "dict (heap demo_used 0) ''dopak'' = Some (Opaque ''function dopak'')"
    and b: "\<not> need_install (groups demo_used 0)"
    and c: "resolve flaky_env 0 demo_used = (Inr (), demo_used)"
    and d: "\<forall>(k, m) \<in> set (modules (groups demo_used 0)). sys_modules demo_used k \<noteq> Some Halted"
    by blast
  from d have "sys_modules demo_used ''pak'' \<noteq> Some Halted" "sys_modules demo_used ''pak.bar'' \<noteq> Some Halted"
    by (simp_all add: demo_used_facts(10))
  with h a b c show ?thesis by blast
qed

subsection \<open>A first use that fails\<close>

text \<open>
  Claim C10 says that after a failed first access the group's resolved flag is still
  false, and that every later attribute access on the proxy raises. In a world where the
  dry run reports nothing to install and the package cannot be imported, \<^verbatim>\<open>resolve()\<close>
  succeeds and the import raises: the group is then marked resolved (\<^verbatim>\<open>need_install\<close>
  is false). And the proxy still answers the attributes it holds, such as
  \<^verbatim>\<open>__name__\<close>, and those of its type, such as \<^verbatim>\<open>__class__\<close>.
\<close>

theorem failed_load_leaves_group_resolved:
  "fst (getattr satisfied_env 0 ''dopak'' demo_scoped) = Inl (ModuleNotFoundError ''pak'') \<and>
   \<not> need_install (groups (snd (getattr satisfied_env 0 ''dopak'' demo_scoped)) 0) \<and>
   fst (getattr satisfied_env 0 ''__name__'' (snd (getattr satisfied_env 0 ''dopak'' demo_scoped))) =
     Inr (Str ''pak'') \<and>
   fst (getattr satisfied_env 0 ''__class__'' (snd (getattr satisfied_env 0 ''dopak'' demo_scoped))) =
     Inr (PyClass ModuleType)"
  by (simp add: scenario_defs demo_defs import_defs getattr_defs resolve_defs rpartition_def
      real_install_done_def)

text \<open>
  Claim C10, amended. \<^verbatim>\<open>__getattr__\<close> resets the class of the proxy before anything
  else, so when the first access raises (in \<^verbatim>\<open>resolve()\<close>, in the import, or because
  the imported module lacks the attribute) the proxy is a plain module from then on:
  every later access is the ordinary lookup of a plain module, which returns what the
  type or the namespace of the proxy provides and raises \<^verbatim>\<open>AttributeError\<close>, changing
  nothing, for every other name; no later access runs \<^verbatim>\<open>pip\<close>, changes a group or the
  registry, or gives the proxy its class back: the resolution is never entered again
  through this proxy. The other module objects keep their class, so the other proxies of the group still trigger the resolution. When
  \<^verbatim>\<open>resolve()\<close> raised, \<^verbatim>\<open>need_install\<close> of the group is still true; when
  \<^verbatim>\<open>resolve()\<close> returned and the failure came later, the group is already resolved.
\<close>

theorem failed_first_use_is_final:
  assumes "p < next_ref s" and "VeryLazyModule_getattr E p attr s = (Inl e, s')"
  shows "cls (heap s' p) = ModuleType \<and>
         (\<forall>E' a. getattr E' p a s' = module_getattr p a s') \<and>
         (\<forall>E' a. \<not> held s' p a \<longrightarrow> getattr E' p a s' = (Inl (AttributeError a), s')) \<and>
         (\<forall>E' a. held s' p a \<longrightarrow> (\<exists>w. fst (getattr E' p a s') = Inr w)) \<and>
         (\<forall>E' a. pip_calls (snd (getattr E' p a s')) = pip_calls s' \<and>
                 groups (snd (getattr E' p a s')) = groups s' \<and>
                 sys_modules (snd (getattr E' p a s')) = sys_modules s' \<and>
                 cls (heap (snd (getattr E' p a s')) p) = ModuleType) \<and>
         (\<forall>q. q \<noteq> p \<and> q < next_ref s \<longrightarrow> cls (heap s' q) = cls (heap s q)) \<and>
         (\<forall>n g. dict (heap s p) ''__spec__'' = Some (ModuleSpec n (Some g)) \<longrightarrow>
            (case fst (resolve E g (unlock g (set_cls p ModuleType s))) of
               Inl e1 \<Rightarrow> need_install (groups s' g)
             | Inr u \<Rightarrow> \<not> need_install (groups s' g)))"
proof -
  have c: "cls (heap s' p) = ModuleType" by (rule vlm_cls(1) [OF assms])
  have q: "\<forall>q. q \<noteq> p \<and> q < next_ref s \<longrightarrow> cls (heap s' q) = cls (heap s q)"
    using vlm_cls(2) [OF assms] by blast
  have g: "\<forall>E' a. getattr E' p a s' = module_getattr p a s'"
    using getattr_plain [OF c] by blast
  have m: "\<forall>E' a. \<not> held s' p a \<longrightarrow> getattr E' p a s' = (Inl (AttributeError a), s')"
    using g module_getattr_not_held by simp
  have hd: "\<forall>E' a. held s' p a \<longrightarrow> (\<exists>w. fst (getattr E' p a s') = Inr w)"
  proof (intro allI impI)
    fix E' a assume "held s' p a"
    from object_getattribute_held [OF this] obtain w where
      "fst (object_getattribute p a s') = Some w" by blast
    then have "fst (module_getattr p a s') = Inr w"
      by (cases "object_getattribute p a s'") (simp add: module_getattr_def)
    with g show "\<exists>w. fst (getattr E' p a s') = Inr w" by simp
  qed
  have fr: "\<forall>E' a. pip_calls (snd (getattr E' p a s')) = pip_calls s' \<and>
                 groups (snd (getattr E' p a s')) = groups s' \<and>
                 sys_modules (snd (getattr E' p a s')) = sys_modules s' \<and>
                 cls (heap (snd (getattr E' p a s')) p) = ModuleType"
    using g c by simp
  have f: "\<forall>n g. dict (heap s p) ''__spec__'' = Some (ModuleSpec n (Some g)) \<longrightarrow>
            (case fst (resolve E g (unlock g (set_cls p ModuleType s))) of
               Inl e1 \<Rightarrow> need_install (groups s' g)
             | Inr u \<Rightarrow> \<not> need_install (groups s' g))"
  proof (intro allI impI)
    fix n g assume "dict (heap s p) ''__spec__'' = Some (ModuleSpec n (Some g))"
    then show "case fst (resolve E g (unlock g (set_cls p ModuleType s))) of
               Inl e1 \<Rightarrow> need_install (groups s' g)
             | Inr u \<Rightarrow> \<not> need_install (groups s' g)"
    proof (cases rule: vlm_cases [where E = E and attr = attr])
      case (resolve_fails e1 s1)
      from resolve_failure_flag [OF resolve_fails(1)] resolve_fails assms(2) show ?thesis by simp
    next
      case (import_fails s1 e1 s2)
      from first_use_resolved [OF import_fails(1,2)] import_fails assms(2) show ?thesis by simp
    next
      case (loaded s1 r s2)
      have "s' = snd (module_getattr p attr (set_dict p (first_use_dict s2 p r) s2))"
        using loaded(3) assms(2) by (metis snd_conv)
      with first_use_resolved [OF loaded(1,2)] loaded(1) show ?thesis by simp
    qed
  qed
  from c g m hd fr q f show ?thesis by blast
qed

theorem failed_first_use_is_final_witness:
  "0 < next_ref demo_scoped \<and>
   dict (heap demo_scoped 0) ''__spec__'' = Some (ModuleSpec ''pak'' (Some 0)) \<and>
   fst (VeryLazyModule_getattr flaky_env 0 ''dopak'' demo_scoped) = Inl (OSError ''pip'') \<and>
   cls (heap (snd (VeryLazyModule_getattr flaky_env 0 ''dopak'' demo_scoped)) 0) = ModuleType \<and>
   \<not> held (snd (VeryLazyModule_getattr flaky_env 0 ''dopak'' demo_scoped)) 0 ''dopak'' \<and>
   getattr demo_env 0 ''dopak'' (snd (VeryLazyModule_getattr flaky_env 0 ''dopak'' demo_scoped)) =
     (Inl (AttributeError ''dopak''), snd (VeryLazyModule_getattr flaky_env 0 ''dopak'' demo_scoped)) \<and>
   cls (heap (snd (VeryLazyModule_getattr flaky_env 0 ''dopak'' demo_scoped)) 1) = VeryLazyModule \<and>
   need_install (groups (snd (VeryLazyModule_getattr flaky_env 0 ''dopak'' demo_scoped)) 0) \<and>
   fst (VeryLazyModule_getattr satisfied_env 0 ''dopak'' demo_scoped) = Inl (ModuleNotFoundError ''pak'') \<and>
   \<not> need_install (groups (snd (VeryLazyModule_getattr satisfied_env 0 ''dopak'' demo_scoped)) 0)"
proof -
  let ?s1 = "snd (VeryLazyModule_getattr flaky_env 0 ''dopak'' demo_scoped)"
  let ?s2 = "snd (VeryLazyModule_getattr satisfied_env 0 ''dopak'' demo_scoped)"
  have p: "0 < next_ref demo_scoped" by (simp add: demo_scoped_facts)
  note sp = demo_scoped_facts(7)
  have f1: "fst (VeryLazyModule_getattr flaky_env 0 ''dopak'' demo_scoped) = Inl (OSError ''pip'')"
    and r1: "fst (resolve flaky_env 0 (unlock 0 (set_cls 0 ModuleType demo_scoped))) = Inl (OSError ''pip'')"
    and d1: "\<not> held ?s1 0 ''dopak''"
    by (simp_all add: scenario_defs demo_defs import_defs getattr_defs resolve_defs rpartition_def)
  have f2: "fst (VeryLazyModule_getattr satisfied_env 0 ''dopak'' demo_scoped) = Inl (ModuleNotFoundError ''pak'')"
    and r2: "fst (resolve satisfied_env 0 (unlock 0 (set_cls 0 ModuleType demo_scoped))) = Inr ()"
    by (simp_all add: scenario_defs demo_defs import_defs getattr_defs resolve_defs rpartition_def
        real_install_done_def)
  from f1 have e1: "VeryLazyModule_getattr flaky_env 0 ''dopak'' demo_scoped = (Inl (OSError ''pip''), ?s1)"
    by (metis prod.collapse)
  from f2 have e2: "VeryLazyModule_getattr satisfied_env 0 ''dopak'' demo_scoped = (Inl (ModuleNotFoundError ''pak''), ?s2)"
    by (metis prod.collapse)
  note t1 = failed_first_use_is_final [OF p e1]
  note t2 = failed_first_use_is_final [OF p e2]
  from t1 have a: "cls (heap ?s1 0) = ModuleType" by blast
  from t1 d1 have b: "getattr demo_env 0 ''dopak'' ?s1 = (Inl (AttributeError ''dopak''), ?s1)" by blast
  from t1 have "cls (heap ?s1 1) = cls (heap demo_scoped 1)"
    by (simp add: demo_scoped_facts)
  then have c: "cls (heap ?s1 1) = VeryLazyModule" using demo_scoped_facts(6) by simp
  from t1 sp have "case fst (resolve flaky_env 0 (unlock 0 (set_cls 0 ModuleType demo_scoped))) of
      Inl e1 \<Rightarrow> need_install (groups ?s1 0) | Inr u \<Rightarrow> \<not> need_install (groups ?s1 0)" by blast
  with r1 have d: "need_install (groups ?s1 0)" by simp
  from t2 sp have "case fst (resolve satisfied_env 0 (unlock 0 (set_cls 0 ModuleType demo_scoped))) of
      Inl e1 \<Rightarrow> need_install (groups ?s2 0) | Inr u \<Rightarrow> \<not> need_install (groups ?s2 0)" by blast
  with r2 have e: "\<not> need_install (groups ?s2 0)" by simp
  from p sp f1 a d1 b c d f2 e show ?thesis by blast
qed

subsection \<open>\<^verbatim>\<open>real_module\<close>\<close>

lemma lookup_real_module:
  "object_getattribute m ''__real_module__'' s = (dict (heap s m) ''__real_module__'', s)"
  by (cases "cls (heap s m)")
     (simp_all add: object_getattribute_def type_attributes_def split: option.splits)

lemma getattr_real_module:
  "getattr E m ''__real_module__'' s =
     (case dict (heap s m) ''__real_module__'' of
        Some v \<Rightarrow> (Inr v, s)
      | None \<Rightarrow> (if cls (heap s m) = VeryLazyModule
                 then VeryLazyModule_getattr E m ''__real_module__'' s
                 else (Inl (AttributeError ''__real_module__''), s)))"
  by (simp add: getattr_def lookup_real_module split: option.splits)

text \<open>
  Claim C5 says that \<^verbatim>\<open>real_module\<close> is total and never changes the object, the
  group or the registry, also on a proxy that has not been used. On such a proxy the
  lookup of \<^verbatim>\<open>__real_module__\<close> fails, so Python calls \<^verbatim>\<open>__getattr__\<close>: after
  \<^verbatim>\<open>with group: import pak; import pak.bar\<close>, \<^verbatim>\<open>real_module(pak)\<close> does all that
  \<^verbatim>\<open>pak.dopak\<close> would do (the proxy becomes a plain module, the names of the group are
  unlocked, \<^verbatim>\<open>pip\<close> runs, the group is resolved, the package is imported) and returns
  the imported module; and where \<^verbatim>\<open>pip\<close> cannot be started it raises.
\<close>

theorem real_module_runs_first_use:
  "cls (heap demo_scoped 0) = VeryLazyModule \<and>
   fst (real_module demo_env 0 demo_scoped) = Inr (Module 2) \<and>
   cls (heap (snd (real_module demo_env 0 demo_scoped)) 0) = ModuleType \<and>
   sys_modules demo_scoped ''pak'' = Some Halted \<and>
   sys_modules (snd (real_module demo_env 0 demo_scoped)) ''pak'' = Some (Loaded 2) \<and>
   need_install (groups demo_scoped 0) \<and>
   \<not> need_install (groups (snd (real_module demo_env 0 demo_scoped)) 0) \<and>
   length (pip_calls (snd (real_module demo_env 0 demo_scoped))) = 2 \<and>
   fst (real_module flaky_env 0 demo_scoped) = Inl (OSError ''pip'')"
  by (simp add: scenario_defs demo_defs import_defs getattr_defs resolve_defs rpartition_def
      real_install_done_def)

text \<open>
  Claim C5, amended. On a module object that is a plain module, or that holds
  \<^verbatim>\<open>__real_module__\<close> (a proxy after its first use does both), \<^verbatim>\<open>real_module\<close>
  returns the recorded reference when there is one and the object itself otherwise, and
  changes nothing. On a proxy that has not been used, \<^verbatim>\<open>real_module\<close> is the proxy's
  first use, for the attribute \<^verbatim>\<open>__real_module__\<close>: it leaves the proxy a plain
  module, returns what \<^verbatim>\<open>__getattr__\<close> returns, returns the proxy itself when that
  raises \<^verbatim>\<open>AttributeError\<close>, and raises whatever else it raises.
\<close>

theorem real_module_pure_on_plain_modules:
  "(cls (heap s m) = ModuleType \<or> dict (heap s m) ''__real_module__'' \<noteq> None \<longrightarrow>
      real_module E m s =
        (Inr (case dict (heap s m) ''__real_module__'' of None \<Rightarrow> Module m | Some v \<Rightarrow> v), s)) \<and>
   (cls (heap s m) = VeryLazyModule \<and> dict (heap s m) ''__real_module__'' = None \<and> m < next_ref s \<longrightarrow>
      cls (heap (snd (real_module E m s)) m) = ModuleType \<and>
      real_module E m s =
        (case VeryLazyModule_getattr E m ''__real_module__'' s of
           (Inr v, s') \<Rightarrow> (Inr v, s')
         | (Inl (AttributeError a), s') \<Rightarrow> (Inr (Module m), s')
         | (Inl e, s') \<Rightarrow> (Inl e, s')))"
proof (intro conjI impI)
  assume "cls (heap s m) = ModuleType \<or> dict (heap s m) ''__real_module__'' \<noteq> None"
  then show "real_module E m s =
        (Inr (case dict (heap s m) ''__real_module__'' of None \<Rightarrow> Module m | Some v \<Rightarrow> v), s)"
    by (cases "dict (heap s m) ''__real_module__''")
       (auto simp: real_module_def getattr_real_module)
next
  assume a: "cls (heap s m) = VeryLazyModule \<and> dict (heap s m) ''__real_module__'' = None \<and> m < next_ref s"
  then have g: "getattr E m ''__real_module__'' s = VeryLazyModule_getattr E m ''__real_module__'' s"
    by (simp add: getattr_real_module)
  show r: "real_module E m s =
        (case VeryLazyModule_getattr E m ''__real_module__'' s of
           (Inr v, s') \<Rightarrow> (Inr v, s')
         | (Inl (AttributeError a), s') \<Rightarrow> (Inr (Module m), s')
         | (Inl e, s') \<Rightarrow> (Inl e, s'))"
    by (simp add: real_module_def g)
  obtain res s' where v: "VeryLazyModule_getattr E m ''__real_module__'' s = (res, s')"
    by (cases "VeryLazyModule_getattr E m ''__real_module__'' s")
  from a have "m < next_ref s" by simp
  from vlm_cls(1) [OF this v] have c: "cls (heap s' m) = ModuleType" .
  have "snd (real_module E m s) = s'"
    unfolding r v by (cases res) (simp_all split: error.splits)
  with c show "cls (heap (snd (real_module E m s)) m) = ModuleType" by simp
qed

theorem real_module_pure_on_plain_modules_witness:
  "cls (heap demo_used 0) = ModuleType \<and>
   real_module flaky_env 0 demo_used = (Inr (Module 2), demo_used) \<and>
   cls (heap demo_used 2) = ModuleType \<and>
   real_module flaky_env 2 demo_used = (Inr (Module 2), demo_used) \<and>
   cls (heap demo_scoped 0) = VeryLazyModule \<and>
   dict (heap demo_scoped 0) ''__real_module__'' = None \<and>
   0 < next_ref demo_scoped \<and>
   cls (heap (snd (real_module demo_env 0 demo_scoped)) 0) = ModuleType"
proof -
  have a: "cls (heap demo_used 0) = ModuleType" "cls (heap demo_used 2) = ModuleType"
    "dict (heap demo_used 0) ''__real_module__'' = Some (Module 2)"
    "dict (heap demo_used 2) ''__real_module__'' = None"
    by (simp_all add: scenario_defs demo_defs import_defs getattr_defs resolve_defs rpartition_def
      real_install_done_def)
  have b: "cls (heap demo_scoped 0) = VeryLazyModule" "dict (heap demo_scoped 0) ''__real_module__'' = None"
    "0 < next_ref demo_scoped"
    by (simp_all add: demo_scoped_facts)
  note t1 = real_module_pure_on_plain_modules [where s = demo_used and m = 0 and E = flaky_env]
  note t2 = real_module_pure_on_plain_modules [where s = demo_used and m = 2 and E = flaky_env]
  note t3 = real_module_pure_on_plain_modules [where s = demo_scoped and m = 0 and E = demo_env]
  from t1 a(1) have "real_module flaky_env 0 demo_used =
      (Inr (case dict (heap demo_used 0) ''__real_module__'' of None \<Rightarrow> Module 0 | Some v \<Rightarrow> v), demo_used)"
    by blast
  then have c: "real_module flaky_env 0 demo_used = (Inr (Module 2), demo_used)"
    by (simp add: a(3))
  from t2 a(2) have "real_module flaky_env 2 demo_used =
      (Inr (case dict (heap demo_used 2) ''__real_module__'' of None \<Rightarrow> Module 2 | Some v \<Rightarrow> v), demo_used)"
    by blast
  then have d: "real_module flaky_env 2 demo_used = (Inr (Module 2), demo_used)"
    by (simp add: a(4))
  from t3 b have e: "cls (heap (snd (real_module demo_env 0 demo_scoped)) 0) = ModuleType"
    by blast
  from a(1,2) b c d e show ?thesis by blast
qed

subsection \<open>The proxy and the real module\<close>

text \<open>
  Claim C8 says that after a first use \<^verbatim>\<open>real_module(proxy)\<close> is the real module, and
  that the proxy is never the real module. Inside the \<^verbatim>\<open>with\<close> block the registry
  maps the name to the proxy, so the import in \<^verbatim>\<open>__getattr__\<close> returns the proxy
  itself: when the group has been resolved by \<^verbatim>\<open>group.resolve()\<close> before the block is
  entered, then after \<^verbatim>\<open>import pak\<close> in the block \<^verbatim>\<open>pak.__real_module__\<close> completes
  and is \<^verbatim>\<open>pak\<close>, the proxy. And the namespace of the real module is written over the proxy's after
  \<^verbatim>\<open>__real_module__\<close> is set: where the real \<^verbatim>\<open>pak\<close> defines \<^verbatim>\<open>__real_module__\<close>,
  \<^verbatim>\<open>real_module(pak)\<close> is that value and not the module the registry holds.
\<close>

theorem proxy_can_be_its_own_real_module:
  "cls (heap resolved_inside 0) = VeryLazyModule \<and>
   \<not> need_install (groups resolved_inside 0) \<and>
   meta_path resolved_inside = [0] \<and>
   sys_modules resolved_inside ''pak'' = Some (Loaded 0) \<and>
   fst (getattr demo_env 0 ''__real_module__'' resolved_inside) = Inr (Module 0) \<and>
   fst (real_module demo_env 0 (snd (getattr demo_env 0 ''__real_module__'' resolved_inside))) =
     Inr (Module 0) \<and>
   sys_modules (snd (getattr demo_env 0 ''__real_module__'' resolved_inside)) ''pak'' = Some (Loaded 0) \<and>
   fst (getattr colliding_env 0 ''dopak'' demo_scoped) = Inr (Opaque ''function dopak'') \<and>
   sys_modules (snd (getattr colliding_env 0 ''dopak'' demo_scoped)) ''pak'' = Some (Loaded 2) \<and>
   fst (real_module colliding_env 0 (snd (getattr colliding_env 0 ''dopak'' demo_scoped))) =
     Inr (Opaque ''taken'')"
  by (simp add: scenario_defs demo_defs import_defs getattr_defs resolve_defs rpartition_def
      real_install_done_def)

text \<open>
  Claim C8, amended. When the first use of a proxy has returned a value, the registry
  maps the proxy's name to the module \<open>r\<close> that was imported. If the registry did not map
  the name to the proxy itself when the first use began (after \<^verbatim>\<open>lock()\<close> it never
  does), \<open>r\<close> is another object than the proxy; and if the namespace of \<open>r\<close> does not
  define \<^verbatim>\<open>__real_module__\<close>, \<^verbatim>\<open>real_module(proxy)\<close> is \<open>r\<close>, and changes nothing.
\<close>

theorem proxy_identity:
  assumes "p < next_ref s"
    and "dict (heap s p) ''__spec__'' = Some (ModuleSpec n (Some g))"
    and "VeryLazyModule_getattr E p attr s = (Inr v, s')"
  shows "\<exists>r. sys_modules s' n = Some (Loaded r) \<and>
             (sys_modules s n \<noteq> Some (Loaded p) \<longrightarrow> r \<noteq> p) \<and>
             ((r \<noteq> p \<longrightarrow> dict (heap s' r) ''__real_module__'' = None) \<longrightarrow>
                real_module E' p s' = (Inr (Module r), s'))"
  using assms(2)
proof (cases rule: vlm_cases [where E = E and attr = attr])
  case (resolve_fails e s1)
  with assms(3) show ?thesis by simp
next
  case (import_fails s1 e s2)
  with assms(3) show ?thesis by simp
next
  case (loaded s1 r s2)
  let ?s4 = "set_dict p (first_use_dict s2 p r) s2"
  have s': "s' = snd (module_getattr p attr ?s4)"
    using loaded(3) assms(3) by (metis snd_conv)
  have dr: "dict (heap s' q) ''__real_module__'' = dict (heap ?s4 q) ''__real_module__''" for q
    by (simp add: s' module_getattr_dict_frame)
  have s1: "s1 = snd (resolve E g (unlock g (set_cls p ModuleType s)))" using loaded(1) by simp
  have nr: "next_ref s1 = next_ref s" by (simp add: s1 prepared_frame)
  have sm1: "sys_modules s1 n = (if n \<in> fst ` set (modules (groups s g)) \<and> sys_modules s n = Some Halted
      then None else sys_modules s n)"
    by (simp add: s1 unlock_def unlock_names_result)
  note res = import_module_result [OF loaded(2)]
  from res have a: "sys_modules s' n = Some (Loaded r)" by (simp add: s')
  have b: "sys_modules s n \<noteq> Some (Loaded p) \<longrightarrow> r \<noteq> p"
  proof
    assume np: "sys_modules s n \<noteq> Some (Loaded p)"
    show "r \<noteq> p"
    proof (cases "sys_modules s1 n")
      case None
      with res nr have "next_ref s \<le> r" by simp
      with assms(1) show ?thesis by simp
    next
      case (Some e)
      show ?thesis
      proof (cases e)
        case Halted
        with Some loaded(2) show ?thesis by (simp add: import_module_unfold)
      next
        case (Loaded x)
        with Some loaded(2) have "r = x" by (simp add: import_module_unfold)
        moreover from Some Loaded sm1 have "sys_modules s n = Some (Loaded x)"
          by (simp split: if_splits)
        ultimately show ?thesis using np by auto
      qed
    qed
  qed
  have c: "(r \<noteq> p \<longrightarrow> dict (heap s' r) ''__real_module__'' = None) \<longrightarrow>
                real_module E' p s' = (Inr (Module r), s')"
  proof
    assume h: "r \<noteq> p \<longrightarrow> dict (heap s' r) ''__real_module__'' = None"
    have "dict (heap s' p) ''__real_module__'' = Some (Module r)"
    proof (cases "r = p")
      case True
      then show ?thesis by (simp add: dr first_use_dict_def)
    next
      case False
      with h have "dict (heap s2 r) ''__real_module__'' = None" by (simp add: dr)
      with False show ?thesis by (simp add: dr first_use_dict_def map_add_def)
    qed
    then show "real_module E' p s' = (Inr (Module r), s')"
      by (simp add: real_module_def getattr_real_module)
  qed
  from a b c show ?thesis by blast
qed

theorem proxy_identity_witness:
  "0 < next_ref demo_scoped \<and>
   dict (heap demo_scoped 0) ''__spec__'' = Some (ModuleSpec ''pak'' (Some 0)) \<and>
   VeryLazyModule_getattr demo_env 0 ''dopak'' demo_scoped = (Inr (Opaque ''function dopak''), demo_used) \<and>
   sys_modules demo_scoped ''pak'' \<noteq> Some (Loaded 0) \<and>
   sys_modules demo_used ''pak'' = Some (Loaded 2) \<and>
   dict (heap demo_used 2) ''__real_module__'' = None \<and>
   real_module flaky_env 0 demo_used = (Inr (Module 2), demo_used)"
proof -
  have p: "0 < next_ref demo_scoped" by (simp add: demo_scoped_facts)
  note sp = demo_scoped_facts(7)
  have v: "VeryLazyModule_getattr demo_env 0 ''dopak'' demo_scoped = (Inr (Opaque ''function dopak''), demo_used)"
    using demo_used_facts(1) getattr_proxy [OF demo_scoped_facts(5) demo_scoped_facts(11)] by simp
  have h: "sys_modules demo_scoped ''pak'' \<noteq> Some (Loaded 0)" by (simp add: demo_scoped_facts)
  note l = demo_used_facts(2)
  have d: "dict (heap demo_used 2) ''__real_module__'' = None"
    by (simp add: scenario_defs demo_defs import_defs getattr_defs resolve_defs rpartition_def
      real_install_done_def)
  from proxy_identity [OF p sp v, where E' = flaky_env] obtain r where
    r: "sys_modules demo_used ''pak'' = Some (Loaded r)"
    and i: "(r \<noteq> 0 \<longrightarrow> dict (heap demo_used r) ''__real_module__'' = None) \<longrightarrow>
                real_module flaky_env 0 demo_used = (Inr (Module r), demo_used)"
    by blast
  from r l have "r = 2" by simp
  with i d have "real_module flaky_env 0 demo_used = (Inr (Module 2), demo_used)" by simp
  with p sp v h l d show ?thesis by blast
qed

subsection \<open>\<^verbatim>\<open>lock\<close> and a name the registry does not hold\<close>

text \<open>
  Claim C6: \<^verbatim>\<open>lock()\<close> replaces exactly the entries that hold the group's own
  proxies, leaves every other entry alone, also a member name that the registry does not
  map at all, and completes without error. \<^verbatim>\<open>lock\<close> reads \<^verbatim>\<open>sys.modules[name]\<close>
  without asking whether the name is there, as \<^verbatim>\<open>unlock\<close> does: a member name that
  the registry does not hold raises \<^verbatim>\<open>KeyError\<close>. That is the state of \<^verbatim>\<open>pak.bar\<close>
  after \<^verbatim>\<open>with group: import pak; import pak.bar\<close> and the first use of \<^verbatim>\<open>pak\<close>
  (its halted entry was removed by \<^verbatim>\<open>unlock\<close> and nothing has imported it since), so
  entering and leaving the same group once more raises.
\<close>

theorem lock_raises_on_unmapped_member:
  "modules (groups demo_used 0) = [(''pak'', 0), (''pak.bar'', 1)] \<and>
   sys_modules demo_used ''pak'' = Some (Loaded 2) \<and>
   sys_modules demo_used ''pak.bar'' = None \<and>
   fst (lock 0 demo_used) = Inl (KeyError ''pak.bar'') \<and>
   fst (scope demo_env 0 [] demo_used) = Inl (KeyError ''pak.bar'')"
  by (simp add: scenario_defs demo_defs import_defs getattr_defs resolve_defs rpartition_def
      real_install_done_def)

text \<open>
  What \<^verbatim>\<open>lock\<close> does otherwise is as the claim says: it raises only for a member
  name that the registry does not hold, and when it returns, exactly the names that were
  bound to the group's own proxy under that name are halted and every other entry is as
  before.
\<close>

lemma lock_raises:
  assumes "(k, m) \<in> set (modules (groups s g))" and "sys_modules s k = None"
  shows "\<exists>k'. fst (lock g s) = Inl (KeyError k')"
proof -
  from lock_items_raises [where sm = "sys_modules s", OF assms] obtain k' where
    "fst (lock_items (modules (groups s g)) (sys_modules s)) = Inl (KeyError k')" ..
  then have "fst (lock g s) = Inl (KeyError k')"
    by (cases "lock_items (modules (groups s g)) (sys_modules s)") (simp add: lock_def)
  then show ?thesis ..
qed

lemma lock_returns:
  assumes "\<And>k m. (k, m) \<in> set (modules (groups s g)) \<Longrightarrow> sys_modules s k \<noteq> None"
  shows "fst (lock g s) = Inr ()"
    and "sys_modules (snd (lock g s)) k =
      (if \<exists>m. (k, m) \<in> set (modules (groups s g)) \<and> sys_modules s k = Some (Loaded m)
       then Some Halted else sys_modules s k)"
proof -
  obtain r sm where l: "lock_items (modules (groups s g)) (sys_modules s) = (r, sm)"
    by (cases "lock_items (modules (groups s g)) (sys_modules s)")
  have "fst (lock_items (modules (groups s g)) (sys_modules s)) = Inr ()"
    by (rule lock_items_ok) (rule assms)
  with l have r: "r = Inr ()" by simp
  with l show "fst (lock g s) = Inr ()" by (simp add: lock_def)
  from l r have "lock_items (modules (groups s g)) (sys_modules s) = (Inr (), sm)" by simp
  from lock_items_result [OF this, of k] l
  show "sys_modules (snd (lock g s)) k =
      (if \<exists>m. (k, m) \<in> set (modules (groups s g)) \<and> sys_modules s k = Some (Loaded m)
       then Some Halted else sys_modules s k)"
    by (simp add: lock_def)
qed

subsection \<open>Halted names\<close>

lemma import_all_step: "import_step s (snd (import_all E ns s))"
proof (induction ns arbitrary: s)
  case Nil
  show ?case by simp
next
  case (Cons n ns)
  obtain r s1 where i: "import_module E n s = (r, s1)" by (cases "import_module E n s")
  have 1: "import_step s s1" using import_module_step [of s E n] i by simp
  show ?case
  proof (cases r)
    case (Inl e)
    with i 1 show ?thesis by simp
  next
    case (Inr m)
    have "import_step s1 (snd (import_all E ns s1))" by (rule Cons.IH)
    with 1 have "import_step s (snd (import_all E ns s1))" by (rule import_step_trans)
    with i Inr show ?thesis by simp
  qed
qed

lemma members_bound_step:
  assumes "import_step s s'"
    and "(k, m) \<in> set (modules (groups s' g))"
    and "\<And>k m. (k, m) \<in> set (modules (groups s g)) \<Longrightarrow> sys_modules s k = Some (Loaded m)"
  shows "sys_modules s' k = Some (Loaded m)"
proof -
  from assms(1,2) have "(k, m) \<in> set (modules (groups s g)) \<or> sys_modules s k = None \<and> sys_modules s' k = Some (Loaded m)"
    unfolding import_step_def by blast
  then show ?thesis
  proof
    assume "(k, m) \<in> set (modules (groups s g))"
    then have "sys_modules s k = Some (Loaded m)" by (rule assms(3))
    with assms(1) show ?thesis unfolding import_step_def by blast
  qed simp
qed

lemma lock_halts_bound_members:
  assumes "\<And>k m. (k, m) \<in> set (modules (groups s g)) \<Longrightarrow> sys_modules s k = Some (Loaded m)"
  shows "fst (lock g s) = Inr ()"
    and "(k, m) \<in> set (modules (groups s g)) \<Longrightarrow> sys_modules (snd (lock g s)) k = Some Halted"
proof -
  obtain r sm where l: "lock_items (modules (groups s g)) (sys_modules s) = (r, sm)"
    by (cases "lock_items (modules (groups s g)) (sys_modules s)")
  have "fst (lock_items (modules (groups s g)) (sys_modules s)) = Inr ()"
  proof (rule lock_items_ok)
    fix n m assume "(n, m) \<in> set (modules (groups s g))"
    then have "sys_modules s n = Some (Loaded m)" by (rule assms)
    then show "sys_modules s n \<noteq> None" by simp
  qed
  with l have r: "r = Inr ()" by simp
  with l show "fst (lock g s) = Inr ()" by (simp add: lock_def)
  assume km: "(k, m) \<in> set (modules (groups s g))"
  then have "sys_modules s k = Some (Loaded m)" by (rule assms)
  with km lock_items_result [of "modules (groups s g)" "sys_modules s" sm k] l r
  have "sm k = Some Halted" by auto
  with l show "sys_modules (snd (lock g s)) k = Some Halted" by (simp add: lock_def)
qed

lemma scope_halts_members:
  assumes "modules (groups s g) = []" and "(k, m) \<in> set (modules (groups (snd (scope E g ns s)) g))"
  shows "sys_modules (snd (scope E g ns s)) k = Some Halted"
proof -
  let ?s1 = "snd (import_all E ns (enter g s))"
  let ?s1' = "?s1\<lparr>meta_path := remove1 g (meta_path ?s1)\<rparr>"
  have st: "import_step (enter g s) ?s1" by (rule import_all_step)
  then have mp: "g \<in> set (meta_path ?s1)" by (simp add: import_step_def enter_def)
  have b: "\<And>k m. (k, m) \<in> set (modules (groups ?s1' g)) \<Longrightarrow> sys_modules ?s1' k = Some (Loaded m)"
  proof -
    fix k m assume "(k, m) \<in> set (modules (groups ?s1' g))"
    then have "(k, m) \<in> set (modules (groups ?s1 g))" by simp
    with st have "sys_modules ?s1 k = Some (Loaded m)"
      by (rule members_bound_step) (simp add: enter_def assms(1))
    then show "sys_modules ?s1' k = Some (Loaded m)" by simp
  qed
  have ex: "exit g ?s1 = lock g ?s1'" using mp by (simp add: exit_def)
  have ok: "fst (lock g ?s1') = Inr ()" by (rule lock_halts_bound_members(1) [OF b])
  have sc: "snd (scope E g ns s) = snd (lock g ?s1')"
    using ex ok by (cases "import_all E ns (enter g s)"; cases "lock g ?s1'") (simp add: scope_def)
  from assms(2) have "(k, m) \<in> set (modules (groups ?s1' g))" by (simp add: sc)
  from lock_halts_bound_members(2) [OF b this] show ?thesis by (simp add: sc)
qed

lemma finds_step:
  assumes "import_step s s'"
  shows "finds E s' k = finds E s k" and "finds_package E s' k = finds_package E s k"
proof -
  from assms have "meta_path s' = meta_path s" "pip_calls s' = pip_calls s"
    by (simp_all add: import_step_def)
  then show "finds E s' k = finds E s k" and "finds_package E s' k = finds_package E s k"
    by (simp_all add: finds_def finds_package_def split: list.splits)
qed

lemma load_unlocked_found:
  assumes "finds E s k"
  shows "\<exists>t. load_unlocked E k s = (Inr (next_ref s), t) \<and>
             sys_modules t = (sys_modules s)(k \<mapsto> Loaded (next_ref s)) \<and>
             (finds_package E s k \<longrightarrow> dict (heap t (next_ref s)) ''__path__'' \<noteq> None)"
proof (cases "meta_path s")
  case Nil
  with assms obtain d where d: "find_real E (pip_calls s) k = Inr d"
    by (cases "find_real E (pip_calls s) k") (simp_all add: finds_def)
  with Nil show ?thesis by (simp add: load_unlocked_def finds_package_def)
next
  case (Cons g fs)
  then show ?thesis by (simp add: load_unlocked_lazy)
qed

lemma load_unlocked_not_found:
  assumes "\<not> finds E s k"
  shows "\<exists>e. load_unlocked E k s = (Inl e, s)"
proof -
  from assms have m: "meta_path s = []" by (cases "meta_path s") (simp_all add: finds_def)
  with assms obtain e where "find_real E (pip_calls s) k = Inl e"
    by (cases "find_real E (pip_calls s) k") (simp_all add: finds_def)
  with m show ?thesis by (simp add: load_unlocked_def)
qed

lemma load_child_found:
  assumes "sys_modules s q = Some (Loaded pm)" and "dict (heap s pm) ''__path__'' \<noteq> None"
    and "finds E s k"
  shows "\<exists>r t. load_child E q k s = (Inr r, t) \<and>
             (finds_package E s k \<longrightarrow> dict (heap t r) ''__path__'' \<noteq> None)"
proof -
  let ?m = "next_ref s"
  from load_unlocked_found [OF assms(3)] obtain t where
    l: "load_unlocked E k s = (Inr ?m, t)"
    and sm: "sys_modules t = (sys_modules s)(k \<mapsto> Loaded ?m)"
    and pk: "finds_package E s k \<longrightarrow> dict (heap t ?m) ''__path__'' \<noteq> None" by blast
  from sm assms(1) obtain x where x: "sys_modules t q = Some (Loaded x)" by (cases "q = k") simp_all
  let ?t' = "set_dict x ((dict (heap t x))(snd (rpartition CHR ''.'' k) \<mapsto> Module ?m)) t"
  have b: "bind_child q (snd (rpartition CHR ''.'' k)) ?m t = (Inr ?m, ?t')"
    using x by (simp add: bind_child_def)
  have c: "load_child E q k s = (Inr ?m, ?t')"
    using assms(1,2) l b by (simp add: load_child_def)
  have "dict (heap t ?m) ''__path__'' \<noteq> None \<Longrightarrow> dict (heap ?t' ?m) ''__path__'' \<noteq> None"
    by (auto simp: set_dict_def)
  with pk c show ?thesis by blast
qed

lemma load_child_not_found:
  assumes "\<not> finds E s k"
  shows "\<exists>e t. load_child E q k s = (Inl e, t)"
proof -
  from load_unlocked_not_found [OF assms] obtain e where "load_unlocked E k s = (Inl e, s)" by blast
  then show ?thesis
    by (cases "sys_modules s q") (auto simp: load_child_def split: entry.splits)
qed

lemma import_loadable:
  "sys_modules s k = None \<Longrightarrow> loadable E s k \<Longrightarrow>
     \<exists>r t. import_module E k s = (Inr r, t) \<and>
           (finds_package E s k \<longrightarrow> dict (heap t r) ''__path__'' \<noteq> None)"
proof (induction E k s rule: import_module.induct)
  case (1 E k s)
  let ?q = "fst (rpartition CHR ''.'' k)"
  note none = "1.prems"(1)
  from "1.prems"(2) have f: "finds E s k" by (subst (asm) loadable.simps) simp
  show ?case
  proof (cases "?q = []")
    case True
    from load_unlocked_found [OF f] none True show ?thesis
      by (auto simp: import_module_unfold(1))
  next
    case False
    show ?thesis
    proof (cases "sys_modules s ?q")
      case (Some e)
      from "1.prems"(2) False Some obtain pm where e: "e = Loaded pm"
        and pa: "dict (heap s pm) ''__path__'' \<noteq> None"
        by (subst (asm) loadable.simps) (cases e; simp)
      from Some e have "sys_modules s ?q = Some (Loaded pm)" by simp
      from load_child_found [OF this pa f] show ?thesis
        by (simp add: import_module_unfold(2) [OF none False Some])
    next
      case pn: None
      from "1.prems"(2) False pn have fp: "finds_package E s ?q" and lq: "loadable E s ?q"
        by (subst (asm) loadable.simps, simp)+
      from "1.IH" [OF none False pn pn lq] fp obtain u s1 where
        i: "import_module E ?q s = (Inr u, s1)" and pa: "dict (heap s1 u) ''__path__'' \<noteq> None"
        by blast
      have st: "import_step s s1" using import_module_step [of s E ?q] i by simp
      have sq: "sys_modules s1 ?q = Some (Loaded u)" using import_module_result [OF i] by simp
      have f1: "finds E s1 k" using f finds_step(1) [OF st] by simp
      have fp1: "finds_package E s1 k = finds_package E s k" by (rule finds_step(2) [OF st])
      from load_child_found [OF sq pa f1] fp1 i show ?thesis
        by (simp add: import_module_unfold(3) [OF none False pn])
    qed
  qed
qed

lemma import_not_found:
  assumes "sys_modules s k = None" and "\<not> finds E s k"
  shows "\<exists>e t. import_module E k s = (Inl e, t)"
proof -
  let ?q = "fst (rpartition CHR ''.'' k)"
  show ?thesis
  proof (cases "?q = []")
    case True
    from load_unlocked_not_found [OF assms(2)] assms(1) True show ?thesis
      by (auto simp: import_module_unfold(1))
  next
    case False
    show ?thesis
    proof (cases "sys_modules s ?q")
      case (Some e)
      from load_child_not_found [OF assms(2)] show ?thesis
        by (simp add: import_module_unfold(2) [OF assms(1) False Some])
    next
      case pn: None
      obtain r s1 where i: "import_module E ?q s = (r, s1)" by (cases "import_module E ?q s")
      have st: "import_step s s1" using import_module_step [of s E ?q] i by simp
      have "\<not> finds E s1 k" using assms(2) finds_step(1) [OF st] by simp
      from load_child_not_found [OF this] i show ?thesis
        by (cases r) (simp_all add: import_module_unfold(3) [OF assms(1) False pn])
    qed
  qed
qed

text \<open>
  Claim C3 says that after any member's first use a direct lookup of every sibling name
  succeeds. A \<^verbatim>\<open>VeryLazyFinder\<close> never declines a name, so a group can hold a name that
  no package has: after \<^verbatim>\<open>with group: import pak; import pakk\<close> and the first use of
  \<^verbatim>\<open>pak\<close>, the name \<^verbatim>\<open>pakk\<close> is a member of the group, it is no longer halted,
  and \<^verbatim>\<open>import pakk\<close> fails, with the ordinary error of a missing module.
\<close>

theorem sibling_lookup_can_fail:
  "fst (getattr demo_env 0 ''dopak'' typo_scoped) = Inr (Opaque ''function dopak'') \<and>
   modules (groups typo_used 0) = [(''pak'', 0), (''pakk'', 1)] \<and>
   sys_modules typo_used ''pakk'' = None \<and>
   fst (import_module demo_env ''pakk'' typo_used) = Inl (ModuleNotFoundError ''pakk'')"
  by (simp add: scenario_defs demo_defs import_defs getattr_defs resolve_defs rpartition_def
      real_install_done_def)

text \<open>
  Claim C3, amended. A direct lookup of a name that \<^verbatim>\<open>sys.modules\<close> maps to \<^verbatim>\<open>None\<close>
  fails with the halted error and changes nothing, every time. Every name registered in
  a fresh group by the imports of its \<^verbatim>\<open>with\<close> block is in that state when the block
  is left. After any member's first use has returned, no name of the group is halted,
  and a direct lookup of a sibling succeeds whenever a module of that name can be had:
  it returns the module that \<^verbatim>\<open>sys.modules\<close> holds for the name and changes nothing;
  when \<^verbatim>\<open>sys.modules\<close> holds none it is an ordinary import, which succeeds and binds
  the name when the name is loadable (the finders find it, and the parent of a dotted
  name is a package or can be loaded as one), and fails when the finders do not find
  the name.
\<close>

theorem halted_until_first_use:
  "(sys_modules s k = Some Halted \<longrightarrow> import_module E k s = (Inl (ModuleNotFoundError_halted k), s)) \<and>
   (modules (groups s g) = [] \<longrightarrow>
      (\<forall>(k, m) \<in> set (modules (groups (snd (scope E g ns s)) g)).
          sys_modules (snd (scope E g ns s)) k = Some Halted \<and>
          import_module E' k (snd (scope E g ns s)) =
            (Inl (ModuleNotFoundError_halted k), snd (scope E g ns s)))) \<and>
   (dict (heap s p) ''__spec__'' = Some (ModuleSpec n (Some g)) \<and>
    VeryLazyModule_getattr E p attr s = (Inr v, s') \<longrightarrow>
      (\<forall>(k, m) \<in> set (modules (groups s' g)).
          sys_modules s' k \<noteq> Some Halted \<and>
          (\<forall>r. sys_modules s' k = Some (Loaded r) \<longrightarrow> import_module E' k s' = (Inr r, s')) \<and>
          (sys_modules s' k = None \<and> loadable E' s' k \<longrightarrow>
             (\<exists>r t. import_module E' k s' = (Inr r, t) \<and> sys_modules t k = Some (Loaded r))) \<and>
          (sys_modules s' k = None \<and> \<not> finds E' s' k \<longrightarrow>
             (\<exists>e t. import_module E' k s' = (Inl e, t)))))"
proof (intro conjI impI)
  assume "sys_modules s k = Some Halted"
  then show "import_module E k s = (Inl (ModuleNotFoundError_halted k), s)"
    by (rule import_module_unfold(4))
next
  assume fresh: "modules (groups s g) = []"
  show "\<forall>(k, m) \<in> set (modules (groups (snd (scope E g ns s)) g)).
          sys_modules (snd (scope E g ns s)) k = Some Halted \<and>
          import_module E' k (snd (scope E g ns s)) =
            (Inl (ModuleNotFoundError_halted k), snd (scope E g ns s))"
  proof (intro ballI, clarify)
    fix k m assume "(k, m) \<in> set (modules (groups (snd (scope E g ns s)) g))"
    from scope_halts_members [OF fresh this]
    have h: "sys_modules (snd (scope E g ns s)) k = Some Halted" .
    from h import_module_unfold(4) [OF h]
    show "sys_modules (snd (scope E g ns s)) k = Some Halted \<and>
          import_module E' k (snd (scope E g ns s)) =
            (Inl (ModuleNotFoundError_halted k), snd (scope E g ns s))" by simp
  qed
next
  assume a: "dict (heap s p) ''__spec__'' = Some (ModuleSpec n (Some g)) \<and>
    VeryLazyModule_getattr E p attr s = (Inr v, s')"
  then have sp: "dict (heap s p) ''__spec__'' = Some (ModuleSpec n (Some g))"
    and v: "VeryLazyModule_getattr E p attr s = (Inr v, s')" by simp_all
  have nh: "\<And>k m. (k, m) \<in> set (modules (groups s' g)) \<Longrightarrow> sys_modules s' k \<noteq> Some Halted"
  proof -
    fix k m assume km: "(k, m) \<in> set (modules (groups s' g))"
    from sp show "sys_modules s' k \<noteq> Some Halted"
    proof (cases rule: vlm_cases [where E = E and attr = attr])
      case (resolve_fails e s1)
      with v show ?thesis by simp
    next
      case (import_fails s1 e s2)
      with v show ?thesis by simp
    next
      case (loaded s1 r s2)
      have s': "s' = snd (module_getattr p attr (set_dict p (first_use_dict s2 p r) s2))"
        using loaded(3) v by (metis snd_conv)
      from km have "(k, m) \<in> set (modules (groups s2 g))" by (simp add: s')
      from first_use_unlocks [OF loaded(1,2) this] show ?thesis by (simp add: s')
    qed
  qed
  have ok: "\<And>k. sys_modules s' k = None \<Longrightarrow> loadable E' s' k \<Longrightarrow>
      \<exists>r t. import_module E' k s' = (Inr r, t) \<and> sys_modules t k = Some (Loaded r)"
  proof -
    fix k assume "sys_modules s' k = None" "loadable E' s' k"
    from import_loadable [OF this] obtain r t where i: "import_module E' k s' = (Inr r, t)"
      by blast
    from import_module_result [OF i] i
    show "\<exists>r t. import_module E' k s' = (Inr r, t) \<and> sys_modules t k = Some (Loaded r)"
      by blast
  qed
  show "\<forall>(k, m) \<in> set (modules (groups s' g)).
          sys_modules s' k \<noteq> Some Halted \<and>
          (\<forall>r. sys_modules s' k = Some (Loaded r) \<longrightarrow> import_module E' k s' = (Inr r, s')) \<and>
          (sys_modules s' k = None \<and> loadable E' s' k \<longrightarrow>
             (\<exists>r t. import_module E' k s' = (Inr r, t) \<and> sys_modules t k = Some (Loaded r))) \<and>
          (sys_modules s' k = None \<and> \<not> finds E' s' k \<longrightarrow>
             (\<exists>e t. import_module E' k s' = (Inl e, t)))"
  proof (intro ballI, clarify, intro conjI allI impI)
    fix k m assume km: "(k, m) \<in> set (modules (groups s' g))"
    show "sys_modules s' k \<noteq> Some Halted" by (rule nh [OF km])
  next
    fix k m r assume "sys_modules s' k = Some (Loaded r)"
    then show "import_module E' k s' = (Inr r, s')" by (rule import_module_unfold(5))
  next
    fix k m assume "sys_modules s' k = None \<and> loadable E' s' k"
    then show "\<exists>r t. import_module E' k s' = (Inr r, t) \<and> sys_modules t k = Some (Loaded r)"
      using ok by blast
  next
    fix k m assume "sys_modules s' k = None \<and> \<not> finds E' s' k"
    then show "\<exists>e t. import_module E' k s' = (Inl e, t)"
      using import_not_found by blast
  qed
qed

theorem halted_until_first_use_witness:
  "sys_modules demo_scoped ''pak'' = Some Halted \<and>
   import_module flaky_env ''pak'' demo_scoped = (Inl (ModuleNotFoundError_halted ''pak''), demo_scoped) \<and>
   modules (groups demo_state 0) = [] \<and>
   modules (groups demo_scoped 0) = [(''pak'', 0), (''pak.bar'', 1)] \<and>
   sys_modules demo_scoped ''pak.bar'' = Some Halted \<and>
   import_module demo_env ''pak.bar'' demo_scoped = (Inl (ModuleNotFoundError_halted ''pak.bar''), demo_scoped) \<and>
   dict (heap demo_scoped 0) ''__spec__'' = Some (ModuleSpec ''pak'' (Some 0)) \<and>
   VeryLazyModule_getattr demo_env 0 ''dopak'' demo_scoped = (Inr (Opaque ''function dopak''), demo_used) \<and>
   modules (groups demo_used 0) = [(''pak'', 0), (''pak.bar'', 1)] \<and>
   sys_modules demo_used ''pak.bar'' = None \<and>
   loadable demo_env demo_used ''pak.bar'' \<and>
   (\<exists>r t. import_module demo_env ''pak.bar'' demo_used = (Inr r, t) \<and>
          sys_modules t ''pak.bar'' = Some (Loaded r)) \<and>
   fst (import_module demo_env ''pak.bar'' demo_used) = Inr 3 \<and>
   sys_modules demo_used ''pak'' = Some (Loaded 2) \<and>
   import_module demo_env ''pak'' demo_used = (Inr 2, demo_used) \<and>
   dict (heap typo_scoped 0) ''__spec__'' = Some (ModuleSpec ''pak'' (Some 0)) \<and>
   VeryLazyModule_getattr demo_env 0 ''dopak'' typo_scoped = (Inr (Opaque ''function dopak''), typo_used) \<and>
   modules (groups typo_used 0) = [(''pak'', 0), (''pakk'', 1)] \<and>
   sys_modules typo_used ''pakk'' = None \<and>
   \<not> finds demo_env typo_used ''pakk'' \<and>
   (\<exists>e t. import_module demo_env ''pakk'' typo_used = (Inl e, t))"
proof -
  note h = demo_scoped_facts(3)
  have fresh: "modules (groups demo_state 0) = []" by (simp add: demo_defs)
  note m = demo_scoped_facts(2)
  note sp = demo_scoped_facts(7)
  have v: "VeryLazyModule_getattr demo_env 0 ''dopak'' demo_scoped = (Inr (Opaque ''function dopak''), demo_used)"
    using demo_used_facts(1) getattr_proxy [OF demo_scoped_facts(5) demo_scoped_facts(11)] by simp
  note mu = demo_used_facts(10)
  note lu = demo_used_facts(2)
  have nb: "sys_modules demo_used ''pak.bar'' = None"
    and ld: "loadable demo_env demo_used ''pak.bar''"
    and i3: "fst (import_module demo_env ''pak.bar'' demo_used) = Inr 3"
    by (simp_all add: scenario_defs demo_defs import_defs getattr_defs resolve_defs rpartition_def
        real_install_done_def finds_def finds_package_def)
  have tsp: "dict (heap typo_scoped 0) ''__spec__'' = Some (ModuleSpec ''pak'' (Some 0))"
    and tm: "modules (groups typo_used 0) = [(''pak'', 0), (''pakk'', 1)]"
    and tn: "sys_modules typo_used ''pakk'' = None"
    and tf: "\<not> finds demo_env typo_used ''pakk''"
    by (simp_all add: scenario_defs demo_defs import_defs getattr_defs resolve_defs rpartition_def
        real_install_done_def finds_def)
  have tv: "VeryLazyModule_getattr demo_env 0 ''dopak'' typo_scoped = (Inr (Opaque ''function dopak''), typo_used)"
    unfolding typo_used_def
    by (rule prod_eqI)
       (simp_all add: typo_scoped_def demo_defs import_defs getattr_defs resolve_defs rpartition_def
          real_install_done_def)
  note t4 = halted_until_first_use [where s = typo_scoped and p = 0 and n = "''pak''" and g = 0
      and E = demo_env and E' = demo_env and attr = "''dopak''" and v = "Opaque ''function dopak''"
      and s' = typo_used]
  from t4 tsp tv have "\<forall>(k, m) \<in> set (modules (groups typo_used 0)).
          sys_modules typo_used k = None \<and> \<not> finds demo_env typo_used k \<longrightarrow>
             (\<exists>e t. import_module demo_env k typo_used = (Inl e, t))"
    by blast
  with tn tf have te: "\<exists>e t. import_module demo_env ''pakk'' typo_used = (Inl e, t)"
    by (simp add: tm)
  note t1 = halted_until_first_use [where s = demo_scoped and k = "''pak''" and E = flaky_env]
  from t1 h have a: "import_module flaky_env ''pak'' demo_scoped = (Inl (ModuleNotFoundError_halted ''pak''), demo_scoped)"
    by blast
  note t2 = halted_until_first_use [where s = demo_state and g = 0 and E = demo_env and E' = demo_env
      and ns = "[''pak'', ''pak.bar'']"]
  from t2 fresh have "\<forall>(k, m) \<in> set (modules (groups demo_scoped 0)).
          sys_modules demo_scoped k = Some Halted \<and>
          import_module demo_env k demo_scoped = (Inl (ModuleNotFoundError_halted k), demo_scoped)"
    unfolding demo_scoped_def by blast
  then have b: "sys_modules demo_scoped ''pak.bar'' = Some Halted"
    "import_module demo_env ''pak.bar'' demo_scoped = (Inl (ModuleNotFoundError_halted ''pak.bar''), demo_scoped)"
    by (simp_all add: m)
  note t3 = halted_until_first_use [where s = demo_scoped and p = 0 and n = "''pak''" and g = 0
      and E = demo_env and E' = demo_env and attr = "''dopak''" and v = "Opaque ''function dopak''"
      and s' = demo_used]
  from t3 sp v have "\<forall>(k, m) \<in> set (modules (groups demo_used 0)).
          sys_modules demo_used k \<noteq> Some Halted \<and>
          (\<forall>r. sys_modules demo_used k = Some (Loaded r) \<longrightarrow> import_module demo_env k demo_used = (Inr r, demo_used)) \<and>
          (sys_modules demo_used k = None \<and> loadable demo_env demo_used k \<longrightarrow>
             (\<exists>r t. import_module demo_env k demo_used = (Inr r, t) \<and> sys_modules t k = Some (Loaded r))) \<and>
          (sys_modules demo_used k = None \<and> \<not> finds demo_env demo_used k \<longrightarrow>
             (\<exists>e t. import_module demo_env k demo_used = (Inl e, t)))"
    by blast
  then have c: "import_module demo_env ''pak'' demo_used = (Inr 2, demo_used)"
    "sys_modules demo_used ''pak.bar'' = None \<and> loadable demo_env demo_used ''pak.bar'' \<longrightarrow>
       (\<exists>r t. import_module demo_env ''pak.bar'' demo_used = (Inr r, t) \<and>
              sys_modules t ''pak.bar'' = Some (Loaded r))"
    using lu by (simp_all add: mu)
  from c(2) nb ld have d: "\<exists>r t. import_module demo_env ''pak.bar'' demo_used = (Inr r, t) \<and>
              sys_modules t ''pak.bar'' = Some (Loaded r)" by blast
  from h a fresh m b sp v mu nb ld d i3 lu c(1) tsp tv tm tn tf te show ?thesis by blast
qed

end
